theory Spec2Isabelle
  imports Complex_Main "HOL-Library.Word"
begin

section \<open>The climate analysis of climate.c\<close>

text \<open>
  The program reads tab-delimited observation files line by line, keeps one
  \<open>struct climate_info\<close> per state code in a fixed array of \<open>NUM_STATES\<close> pointers and
  prints a report. The embedding follows the C text function by function.

  Conventions of the embedding:
  \<^item> \<open>unsigned long\<close> is a 64-bit word (arithmetic wraps), \<open>int\<close> is a 32-bit
    two's-complement value read as an \<open>int\<close> of HOL, \<open>time_t\<close> is an \<open>int\<close> of HOL
    (every value the program stores in one is a 32-bit quotient);
  \<^item> \<open>double\<close> and \<open>long double\<close> are idealised as \<open>real\<close>: rounding, infinities and
    NaN are outside the embedding;
  \<^item> a pointer of the \<open>states\<close> array is an \<open>option\<close>, \<open>NULL\<close> being \<open>None\<close>; every
    struct is freshly allocated, so no two slots alias;
  \<^item> the heap is the list of the chunks \<open>malloc\<close> can still return, in the order in which
    it returns them. A chunk is given by the one byte of its old content that the program
    reads without having written it: the byte at offset 2, where \<open>code[2]\<close> comes to lie
    (NUL in memory that was never used, anything in a chunk that \<open>fclose\<close> has freed).
    The program never frees a struct, so each call of \<open>create_state\<close> takes one chunk;
    with none left \<open>create_state\<close> exits the process, which is the error value
    \<open>Alloc_failed\<close>;
  \<^item> \<open>strcmp\<close> on a \<open>code\<close> array that holds no NUL reads past the array; that read is
    undefined in C and is the error value \<open>Read_past_code\<close>;
  \<^item> a file is the list of its bytes, and an argument of \<open>main\<close> whose file cannot be
    opened is \<open>None\<close>.
\<close>

subsection \<open>Constants and the accumulator\<close>

definition NUM_STATES :: nat where
  "NUM_STATES = 50"

definition LINE_SIZE :: nat where
  "LINE_SIZE = 100"

text \<open>\<open>DBL_MAX\<close> of \<open>float.h\<close> for IEEE binary64: \<open>(2 - 2^-52) * 2^1023\<close>.\<close>

definition DBL_MAX :: real where
  "DBL_MAX = (2 ^ 53 - 1) * 2 ^ 971"

text \<open>
  The field \<open>code\<close> is an array of three bytes. It is given by the C string it holds within
  its bounds: at most three bytes, three when no byte of the array is NUL.
\<close>

record climate_info =
  code :: string
  num_records :: "64 word"
  humidity_sum :: real
  temperature_sum :: real
  max_temp :: real
  min_temp :: real
  max_temp_timestamp :: int
  min_temp_timestamp :: int
  lightning_strikes :: "64 word"
  snow_cover_records :: "64 word"
  cloud_cover_sum :: real

datatype error = Usage | Alloc_failed | Read_past_code

subsection \<open>The C library functions the program calls\<close>

text \<open>
  \<open>atoi\<close>, \<open>atof\<close>, \<open>strtok\<close>, \<open>strncpy\<close>, \<open>strcmp\<close> and \<open>fgets\<close> belong to the C
  library. They are modelled as the C standard describes them, on the decimal notation of
  the input format.
\<close>

definition isspace :: "char \<Rightarrow> bool" where
  "isspace c = (c \<in> set [CHR '' '', CHR 0x09, CHR 0x0A, CHR 0x0B, CHR 0x0C, CHR 0x0D])"

definition isdigit :: "char \<Rightarrow> bool" where
  "isdigit c = (48 \<le> (of_char c :: nat) \<and> (of_char c :: nat) \<le> 57)"

definition digit_val :: "char \<Rightarrow> int" where
  "digit_val c = of_char c - 48"

text \<open>The value of a string of decimal digits, most significant first.\<close>

definition digits_value :: "string \<Rightarrow> int" where
  "digits_value ds = foldl (\<lambda>acc c. acc * 10 + digit_val c) 0 ds"

text \<open>
  The mathematical value of the longest decimal integer prefix: white space, an optional
  sign, digits. No digits give 0.
\<close>

definition decimal_prefix :: "string \<Rightarrow> int" where
  "decimal_prefix s =
     (let s1 = dropWhile isspace s;
          neg = (s1 \<noteq> [] \<and> hd s1 = CHR ''-'');
          s2 = (if s1 \<noteq> [] \<and> (hd s1 = CHR ''-'' \<or> hd s1 = CHR ''+'') then tl s1 else s1);
          v = digits_value (takeWhile isdigit s2)
      in if neg then - v else v)"

text \<open>
  \<open>strtol\<close> in base 10 on a 64-bit \<open>long\<close>: the value, clamped to the range of \<open>long\<close>.
\<close>

definition strtol :: "string \<Rightarrow> int" where
  "strtol s = max (- (2 ^ 63)) (min (2 ^ 63 - 1) (decimal_prefix s))"

text \<open>
  \<open>atoi\<close> is \<open>(int) strtol(s, NULL, 10)\<close>: the low 32 bits, read as two's complement.
  (The C standard leaves \<open>atoi\<close> undefined where the value does not fit an \<open>int\<close>; this is
  what the GNU C library computes. Whatever a library returns there is an \<open>int\<close>.)
\<close>

definition atoi :: "string \<Rightarrow> int" where
  "atoi s = sint (word_of_int (strtol s) :: 32 word)"

text \<open>Division of C on integers truncates towards zero.\<close>

definition c_div :: "int \<Rightarrow> int \<Rightarrow> int" where
  "c_div a b = sgn a * sgn b * (\<bar>a\<bar> div \<bar>b\<bar>)"

text \<open>
  \<open>atof\<close> on decimal notation: white space, an optional sign, digits with an optional
  fraction, an optional exponent. A string with no digits converts to 0. The result is the
  exact real value (the nearest \<open>double\<close> in C). The hexadecimal, infinity and NaN
  notations of \<open>strtod\<close> do not occur in the input format and are read as the decimal
  prefix they start with.
\<close>

definition exponent_part :: "string \<Rightarrow> int" where
  "exponent_part s =
     (if s \<noteq> [] \<and> (hd s = CHR ''e'' \<or> hd s = CHR ''E'') then
        (let s1 = tl s;
             neg = (s1 \<noteq> [] \<and> hd s1 = CHR ''-'');
             s2 = (if s1 \<noteq> [] \<and> (hd s1 = CHR ''-'' \<or> hd s1 = CHR ''+'') then tl s1 else s1);
             v = digits_value (takeWhile isdigit s2)
         in if neg then - v else v)
      else 0)"

definition atof :: "string \<Rightarrow> real" where
  "atof s =
     (let s1 = dropWhile isspace s;
          neg = (s1 \<noteq> [] \<and> hd s1 = CHR ''-'');
          s2 = (if s1 \<noteq> [] \<and> (hd s1 = CHR ''-'' \<or> hd s1 = CHR ''+'') then tl s1 else s1);
          ip = takeWhile isdigit s2;
          s3 = dropWhile isdigit s2;
          fp = (if s3 \<noteq> [] \<and> hd s3 = CHR ''.'' then takeWhile isdigit (tl s3) else []);
          s4 = (if s3 \<noteq> [] \<and> hd s3 = CHR ''.'' then dropWhile isdigit (tl s3) else s3);
          m = real_of_int (digits_value (ip @ fp)) / 10 ^ length fp;
          e = exponent_part s4;
          v = (if 0 \<le> e then m * 10 ^ nat e else m / 10 ^ nat (- e))
      in if ip = [] \<and> fp = [] then 0 else if neg then - v else v)"

text \<open>A C string ends at its first NUL byte.\<close>

definition c_str :: "string \<Rightarrow> string" where
  "c_str s = takeWhile (\<lambda>c. c \<noteq> CHR 0x00) s"

text \<open>
  \<open>fgets(line, n + 1, file)\<close>: at most \<open>n\<close> bytes, up to and including the first newline.
  The result is the line read and the rest of the file.
\<close>

fun fgets :: "nat \<Rightarrow> string \<Rightarrow> string \<times> string" where
  "fgets 0 cs = ([], cs)"
| "fgets (Suc n) [] = ([], [])"
| "fgets (Suc n) (c # cs) =
     (if c = CHR 0x0A then ([c], cs)
      else (case fgets n cs of (l, r) \<Rightarrow> (c # l, r)))"

text \<open>
  \<open>strtok\<close> with the delimiter set \<open>"\t"\<close>, on the text that is left: it skips leading
  tabs, returns \<open>None\<close> (\<open>NULL\<close>) when nothing is left, and otherwise the token up to the
  next tab together with the text after that tab.
\<close>

definition is_tab :: "char \<Rightarrow> bool" where
  "is_tab c = (c = CHR 0x09)"

definition strtok :: "string \<Rightarrow> (string \<times> string) option" where
  "strtok s =
     (let s1 = dropWhile is_tab s
      in if s1 = [] then None
         else Some (takeWhile (\<lambda>c. \<not> is_tab c) s1, drop 1 (dropWhile (\<lambda>c. \<not> is_tab c) s1)))"

text \<open>
  \<open>strncpy(dest, src, 2)\<close> writes two bytes: the first two of \<open>src\<close>, or what \<open>src\<close> has and
  NUL after it.
\<close>

definition strncpy2 :: "string \<Rightarrow> string" where
  "strncpy2 src = take 2 (c_str src @ [CHR 0x00, CHR 0x00])"

text \<open>
  \<open>strcmp\<close> on two \<open>code\<close> arrays, each given by the C string it holds within its bounds
  (the end of that string is the NUL of the array, or the end of the array when it holds
  no NUL). \<open>n\<close> is the number of bytes of the arrays still ahead. \<open>Some True\<close> is the result
  0; \<open>None\<close> means that the next byte to compare lies outside the arrays.
\<close>

fun strcmp_code :: "nat \<Rightarrow> string \<Rightarrow> string \<Rightarrow> bool option" where
  "strcmp_code 0 a b = None"
| "strcmp_code (Suc n) [] [] = Some True"
| "strcmp_code (Suc n) [] (y # b) = Some False"
| "strcmp_code (Suc n) (x # a) [] = Some False"
| "strcmp_code (Suc n) (x # a) (y # b) = (if x = y then strcmp_code n a b else Some False)"

subsection \<open>The functions of climate.c\<close>

definition kelvin_to_fahrenheit :: "real \<Rightarrow> real" where
  "kelvin_to_fahrenheit kelvin = kelvin * 1.8 - 459.67"

text \<open>
  \<open>create_state\<close>: one allocation, or the exit of the process. \<open>strncpy\<close> writes
  \<open>code[0]\<close> and \<open>code[1]\<close>; \<open>code[2]\<close> is never written and keeps the byte of the chunk.
\<close>

fun create_state :: "string \<Rightarrow> string list \<Rightarrow> error + (string \<times> climate_info)" where
  "create_state [] tokens = Inl Alloc_failed"
| "create_state (stale # heap) tokens =
     Inr (heap,
       \<lparr>code = c_str (strncpy2 (tokens ! 0) @ [stale]),
        num_records = 0,
        humidity_sum = 0,
        temperature_sum = 0,
        max_temp = - DBL_MAX,
        min_temp = DBL_MAX,
        max_temp_timestamp = 0,
        min_temp_timestamp = 0,
        lightning_strikes = 0,
        snow_cover_records = 0,
        cloud_cover_sum = 0\<rparr>)"

text \<open>
  \<open>update_state_info\<close> works on \<open>states[index]\<close> only; its parameter \<open>state\<close> is unused.
\<close>

definition update_state_info :: "climate_info \<Rightarrow> string list \<Rightarrow> climate_info" where
  "update_state_info s tokens =
     (let s1 = s\<lparr>num_records := num_records s + 1,
                 humidity_sum := humidity_sum s + atof (tokens ! 3),
                 temperature_sum := temperature_sum s + kelvin_to_fahrenheit (atof (tokens ! 8)),
                 cloud_cover_sum := cloud_cover_sum s + atof (tokens ! 5)\<rparr>;
          temp_kelvin = atof (tokens ! 8);
          temp_fahrenheit = kelvin_to_fahrenheit temp_kelvin;
          s2 = (if temp_fahrenheit > max_temp s1
                then s1\<lparr>max_temp := temp_fahrenheit,
                        max_temp_timestamp := c_div (atoi (tokens ! 1)) 1000\<rparr>
                else s1);
          s3 = (if temp_fahrenheit < min_temp s2
                then s2\<lparr>min_temp := temp_fahrenheit,
                        min_temp_timestamp := c_div (atoi (tokens ! 1)) 1000\<rparr>
                else s2)
      in s3\<lparr>lightning_strikes := lightning_strikes s3 + word_of_int (atoi (tokens ! 6)),
            snow_cover_records := snow_cover_records s3 + word_of_int (atoi (tokens ! 4))\<rparr>)"

text \<open>
  The token loop of \<open>analyze_file\<close>: \<open>n\<close> is the number of tokens that may still be stored
  (\<open>9 - tokenIndex\<close>), the second argument the result of the last \<open>strtok\<close>.
\<close>

fun collect_tokens :: "nat \<Rightarrow> (string \<times> string) option \<Rightarrow> string list" where
  "collect_tokens 0 token = []"
| "collect_tokens (Suc n) None = []"
| "collect_tokens (Suc n) (Some (tok, rest)) = tok # collect_tokens n (strtok rest)"

definition tokenize :: "string \<Rightarrow> string list" where
  "tokenize line = collect_tokens 9 (strtok (c_str line))"

text \<open>
  The \<open>for\<close> loop of \<open>analyze_file\<close> over the slots of the array, from index 0: the first
  slot that is \<open>NULL\<close> receives the new struct as it is, the first slot whose code
  \<open>strcmp\<close> finds equal to the new struct's is updated from the tokens; the loop ends at
  either, or at the end of the array.
\<close>

fun states_loop ::
  "climate_info option list \<Rightarrow> climate_info \<Rightarrow> string list \<Rightarrow>
   error + climate_info option list" where
  "states_loop [] state tokens = Inr []"
| "states_loop (None # rest) state tokens = Inr (Some state # rest)"
| "states_loop (Some s # rest) state tokens =
     (case strcmp_code 3 (code s) (code state) of
        None \<Rightarrow> Inl Read_past_code
      | Some True \<Rightarrow> Inr (Some (update_state_info s tokens) # rest)
      | Some False \<Rightarrow>
          (case states_loop rest state tokens of
             Inl e \<Rightarrow> Inl e
           | Inr rest' \<Rightarrow> Inr (Some s # rest')))"

text \<open>The body of the \<open>while\<close> loop of \<open>analyze_file\<close>, for one line that \<open>fgets\<close> returned.\<close>

definition analyze_line ::
  "string \<Rightarrow> climate_info option list \<Rightarrow> string \<Rightarrow>
   error + (string \<times> climate_info option list)" where
  "analyze_line heap states line =
     (let tokens = tokenize line
      in if length tokens < 9 then Inr (heap, states)
         else (case create_state heap tokens of
                 Inl e \<Rightarrow> Inl e
               | Inr (heap', state) \<Rightarrow>
                   (case states_loop states state tokens of
                      Inl e \<Rightarrow> Inl e
                    | Inr states' \<Rightarrow> Inr (heap', states'))))"

lemma fgets_rest_shorter: "cs \<noteq> [] \<Longrightarrow> length (snd (fgets (Suc n) cs)) < length cs"
proof (induction n arbitrary: cs)
  case 0
  then show ?case by (cases cs) auto
next
  case (Suc n)
  then obtain c cs' where cs: "cs = c # cs'" by (cases cs) auto
  show ?case
  proof (cases "cs' = []")
    case True
    then show ?thesis using cs by (auto split: prod.splits)
  next
    case False
    from Suc.IH [OF False] show ?thesis using cs by (auto split: prod.splits)
  qed
qed

lemma fgets_line_size_shorter:
  "cs \<noteq> [] \<Longrightarrow> (line, rest) = fgets (LINE_SIZE - 1) cs \<Longrightarrow> length rest < length cs"
proof -
  assume ne: "cs \<noteq> []" and lr: "(line, rest) = fgets (LINE_SIZE - 1) cs"
  have "LINE_SIZE - 1 = Suc 98" by (simp add: LINE_SIZE_def)
  with fgets_rest_shorter [OF ne, of 98] lr show ?thesis by (metis snd_conv)
qed

function analyze_file ::
  "string \<Rightarrow> climate_info option list \<Rightarrow> string \<Rightarrow>
   error + (string \<times> climate_info option list)" where
  "analyze_file heap states file =
     (if file = [] then Inr (heap, states)
      else (case fgets (LINE_SIZE - 1) file of
              (line, rest) \<Rightarrow>
                (case analyze_line heap states line of
                   Inl e \<Rightarrow> Inl e
                 | Inr (heap', states') \<Rightarrow> analyze_file heap' states' rest)))"
  by pat_completeness auto
termination
  by (relation "measure (\<lambda>(heap, states, file). length file)")
    (auto dest: fgets_line_size_shorter)

text \<open>
  \<open>main\<close>: the loop over the arguments shares one array; a file that cannot be opened is
  reported and skipped. With no argument the program prints its usage and fails.
\<close>

fun main_loop ::
  "string \<Rightarrow> climate_info option list \<Rightarrow> string option list \<Rightarrow>
   error + (string \<times> climate_info option list)" where
  "main_loop heap states [] = Inr (heap, states)"
| "main_loop heap states (None # files) = main_loop heap states files"
| "main_loop heap states (Some file # files) =
     (case analyze_file heap states file of
        Inl e \<Rightarrow> Inl e
      | Inr (heap', states') \<Rightarrow> main_loop heap' states' files)"

definition main :: "string \<Rightarrow> string option list \<Rightarrow> error + climate_info option list" where
  "main heap files =
     (if files = [] then Inl Usage
      else (case main_loop heap (replicate NUM_STATES None) files of
              Inl e \<Rightarrow> Inl e
            | Inr (heap', states) \<Rightarrow> Inr states))"

text \<open>
  \<open>print_report\<close> visits the slots in index order and prints every struct that is there.
  The report is modelled by the values it prints, before formatting. A quotient whose
  divisor \<open>num_records\<close> is zero has no value here: C evaluates it to a NaN or an
  infinity and prints that. (A code of three bytes is printed with whatever follows it in
  memory, up to the next NUL.)
\<close>

fun snapshot :: "climate_info option list \<Rightarrow> climate_info list" where
  "snapshot [] = []"
| "snapshot (None # rest) = snapshot rest"
| "snapshot (Some info # rest) = info # snapshot rest"

definition average :: "real \<Rightarrow> 64 word \<Rightarrow> real option" where
  "average s n = (if n = 0 then None else Some (s / real (unat n)))"

record report_entry =
  state_code :: string
  number_of_records :: "64 word"
  average_humidity :: "real option"
  average_temperature :: "real option"
  report_max_temp :: real
  report_max_temp_on :: int
  report_min_temp :: real
  report_min_temp_on :: int
  report_lightning_strikes :: "64 word"
  report_snow_cover_records :: "64 word"
  average_cloud_cover :: "real option"

definition print_report :: "climate_info option list \<Rightarrow> report_entry list" where
  "print_report states =
     map (\<lambda>info.
        \<lparr>state_code = code info,
         number_of_records = num_records info,
         average_humidity = average (humidity_sum info) (num_records info),
         average_temperature = average (temperature_sum info) (num_records info),
         report_max_temp = max_temp info,
         report_max_temp_on = max_temp_timestamp info,
         report_min_temp = min_temp info,
         report_min_temp_on = min_temp_timestamp info,
         report_lightning_strikes = lightning_strikes info,
         report_snow_cover_records = snow_cover_records info,
         average_cloud_cover = average (cloud_cover_sum info) (num_records info)\<rparr>)
       (snapshot states)"

subsection \<open>Notions the properties are stated with\<close>

text \<open>
  A line is a record when the token loop fills all nine slots; its state code is what
  \<open>create_state\<close> copies from the first token (and what the \<open>code\<close> array holds as a C
  string when its third byte is NUL).
\<close>

definition is_record :: "string \<Rightarrow> bool" where
  "is_record line = (\<not> length (tokenize line) < 9)"

definition line_code :: "string \<Rightarrow> string" where
  "line_code line = take 2 (tokenize line ! 0)"

text \<open>The lines \<open>fgets\<close> hands to the loop of \<open>analyze_file\<close>, in order.\<close>

function file_lines :: "string \<Rightarrow> string list" where
  "file_lines file =
     (if file = [] then []
      else (case fgets (LINE_SIZE - 1) file of (line, rest) \<Rightarrow> line # file_lines rest))"
  by pat_completeness auto
termination
  by (relation "measure length") (auto dest: fgets_line_size_shorter)

text \<open>All lines of a run, over the files that could be opened, and the records among them.\<close>

definition input_lines :: "string option list \<Rightarrow> string list" where
  "input_lines files =
     concat (map (\<lambda>f. case f of None \<Rightarrow> [] | Some file \<Rightarrow> file_lines file) files)"

definition records :: "string option list \<Rightarrow> string list" where
  "records files = filter is_record (input_lines files)"

text \<open>The distinct elements of a list in the order of their first occurrence.\<close>

definition first_seen :: "'a list \<Rightarrow> 'a list" where
  "first_seen xs = rev (remdups (rev xs))"

text \<open>
  A heap of \<open>n\<close> chunks of memory that was never used, and the arrays in which every
  \<open>code\<close> holds its NUL.
\<close>

definition fresh :: "nat \<Rightarrow> string" where
  "fresh n = replicate n (CHR 0x00)"

definition terminated_codes :: "climate_info option list \<Rightarrow> bool" where
  "terminated_codes states =
     list_all (\<lambda>slot. case slot of None \<Rightarrow> True | Some s \<Rightarrow> length (code s) < 3) states"

text \<open>The struct \<open>create_state\<close> returns for a state code, in a chunk of such memory.\<close>

definition blank_state :: "string \<Rightarrow> climate_info" where
  "blank_state c =
     \<lparr>code = c, num_records = 0, humidity_sum = 0, temperature_sum = 0,
      max_temp = - DBL_MAX, min_temp = DBL_MAX, max_temp_timestamp = 0,
      min_temp_timestamp = 0, lightning_strikes = 0, snow_cover_records = 0,
      cloud_cover_sum = 0\<rparr>"

text \<open>
  The loop of \<open>analyze_file\<close> and what one line does to the array, when every code holds its
  NUL and the allocation succeeds in a chunk of memory that was never used.
\<close>

fun terminated_loop ::
  "climate_info option list \<Rightarrow> climate_info \<Rightarrow> string list \<Rightarrow> climate_info option list" where
  "terminated_loop [] state tokens = []"
| "terminated_loop (None # rest) state tokens = Some state # rest"
| "terminated_loop (Some s # rest) state tokens =
     (if code s = code state then Some (update_state_info s tokens) # rest
      else Some s # terminated_loop rest state tokens)"

definition fold_line :: "climate_info option list \<Rightarrow> string \<Rightarrow> climate_info option list" where
  "fold_line states line =
     (if is_record line then terminated_loop states (blank_state (line_code line)) (tokenize line)
      else states)"

text \<open>
  The records of a state code among the lines of a run, the struct that results from
  folding all of them but the first into the struct \<open>create_state\<close> returns, and the
  state codes of a run in the order of their first record.
\<close>

definition records_of :: "string \<Rightarrow> string list \<Rightarrow> string list" where
  "records_of c ls = filter (\<lambda>l. is_record l \<and> line_code l = c) ls"

definition folded :: "string \<Rightarrow> string list \<Rightarrow> climate_info" where
  "folded c ls = foldl update_state_info (blank_state c) (map tokenize (tl (records_of c ls)))"

definition seen_codes :: "string list \<Rightarrow> string list" where
  "seen_codes ls = first_seen (map line_code (filter is_record ls))"

text \<open>
  The array after a run over the lines \<open>ls\<close>, started on \<open>n\<close> empty slots: one struct per
  state code in first-seen order, as far as the slots reach, then the empty slots.
\<close>

definition shape :: "nat \<Rightarrow> string list \<Rightarrow> climate_info option list" where
  "shape n ls =
     map (\<lambda>c. Some (folded c ls)) (take n (seen_codes ls)) @
     replicate (n - length (seen_codes ls)) None"

text \<open>
  The tab-separated fields of a text: one more than it has tabs, empty where two tabs are
  adjacent or a tab stands first or last.
\<close>

fun split_tab :: "string \<Rightarrow> string list" where
  "split_tab [] = [[]]"
| "split_tab (c # cs) =
     (if is_tab c then [] # split_tab cs
      else (case split_tab cs of [] \<Rightarrow> [[c]] | f # fs \<Rightarrow> (c # f) # fs))"

text \<open>A text without the newline that ends it, if one does.\<close>

definition chomp :: "string \<Rightarrow> string" where
  "chomp s = (if s \<noteq> [] \<and> last s = CHR 0x0A then butlast s else s)"

text \<open>
  The fields of a line buffer as the tokenizer meets them, the newline being part of the
  last one, and the fields of the line proper, without its newline.
\<close>

definition raw_fields :: "string \<Rightarrow> string list" where
  "raw_fields line = split_tab (c_str line)"

definition line_fields :: "string \<Rightarrow> string list" where
  "line_fields line = split_tab (chomp (c_str line))"

definition nonempty_fields :: "string \<Rightarrow> string list" where
  "nonempty_fields s = filter (\<lambda>f. f \<noteq> []) (split_tab s)"

subsection \<open>Inputs of the examples\<close>

text \<open>
  A line of the input format, written by its fields: the fields joined by tabs, then the
  newline. \<open>is_line\<close> says that a text is one line that \<open>fgets\<close> returns whole.
\<close>

fun join_tabs :: "string list \<Rightarrow> string" where
  "join_tabs [] = []"
| "join_tabs [f] = f"
| "join_tabs (f # fs) = f @ CHR 0x09 # join_tabs fs"

definition line_of :: "string list \<Rightarrow> string" where
  "line_of fs = join_tabs fs @ [CHR 0x0A]"

definition is_line :: "string \<Rightarrow> bool" where
  "is_line l = (l \<noteq> [] \<and> last l = CHR 0x0A \<and> CHR 0x0A \<notin> set (butlast l) \<and> length l < LINE_SIZE)"

text \<open>
  Two records of the state CA: 298.15 K (77 degrees Fahrenheit) at 1000 s with humidity 50,
  no snow, cloud cover 10 and lightning; 273.15 K (32 degrees Fahrenheit) at 2000 s with
  humidity 60, snow, cloud cover 20 and no lightning.
\<close>

definition rec_CA1 :: string where
  "rec_CA1 = line_of [''CA'', ''1000000'', ''g'', ''50'', ''0'', ''10'', ''1'', ''9'', ''298.15'']"

definition rec_CA2 :: string where
  "rec_CA2 = line_of [''CA'', ''2000000'', ''g'', ''60'', ''1'', ''20'', ''0'', ''9'', ''273.15'']"

text \<open>
  A third record of CA, again 273.15 K, at 3000 s; the first sample line of the header
  comment of climate.c, with its timestamp in milliseconds; and a line of eight fields.
\<close>

definition rec_CA3 :: string where
  "rec_CA3 = line_of [''CA'', ''3000000'', ''g'', ''70'', ''0'', ''30'', ''0'', ''9'', ''273.15'']"

definition rec_hdr :: string where
  "rec_hdr = line_of [''CA'', ''1428300000000'', ''9prcjqk3yc80'', ''93.0'', ''0.0'', ''100.0'',
     ''0.0'', ''95644.0'', ''277.58716'']"

definition short_line :: string where
  "short_line = line_of [''CA'', ''3000000'', ''g'', ''70'', ''0'', ''30'', ''0'', ''273.15'']"

text \<open>Records of the states WA, TN and WA again.\<close>

definition rec_WA1 :: string where
  "rec_WA1 = line_of [''WA'', ''1000000'', ''g'', ''50'', ''0'', ''10'', ''1'', ''9'', ''298.15'']"

definition rec_TN :: string where
  "rec_TN = line_of [''TN'', ''2000000'', ''g'', ''60'', ''1'', ''20'', ''0'', ''9'', ''273.15'']"

definition rec_WA2 :: string where
  "rec_WA2 = line_of [''WA'', ''3000000'', ''g'', ''70'', ''0'', ''30'', ''0'', ''9'', ''273.15'']"




text \<open>
  Lines of nine fields with one field empty: the geolocation (two adjacent tabs); the
  temperature, in a last line that ends with a tab and has no newline; and the temperature,
  with nothing between the last tab and the newline.
\<close>

definition rec_empty_geo :: string where
  "rec_empty_geo = line_of [''CA'', ''3000000'', '''', ''70'', ''0'', ''30'', ''0'', ''9'', ''273.15'']"

definition rec_unfinished :: string where
  "rec_unfinished = join_tabs [''CA'', ''3000000'', ''g'', ''70'', ''0'', ''30'', ''0'', ''9'', []]"

definition rec_empty_temp :: string where
  "rec_empty_temp = line_of [''CA'', ''3000000'', ''g'', ''70'', ''0'', ''30'', ''0'', ''9'', '''']"

section \<open>Tokens and fields\<close>

lemma split_tab_nonempty: "split_tab s \<noteq> []"
  by (induction s) (auto split: list.splits)

lemma length_split_tab: "length (split_tab s) = Suc (length (filter is_tab s))"
proof (induction s)
  case Nil
  show ?case by simp
next
  case (Cons c cs)
  then show ?case using split_tab_nonempty [of cs] by (cases "split_tab cs") auto
qed

lemma hd_split_tab: "hd (split_tab s) = takeWhile (\<lambda>c. \<not> is_tab c) s"
  by (induction s) (auto simp: split_tab_nonempty split: list.splits)

lemma tl_split_tab:
  "tl (split_tab s) =
     (if dropWhile (\<lambda>c. \<not> is_tab c) s = [] then []
      else split_tab (drop 1 (dropWhile (\<lambda>c. \<not> is_tab c) s)))"
  by (induction s) (auto simp: split_tab_nonempty split: list.splits)

lemma split_tab_unfold:
  "split_tab s = takeWhile (\<lambda>c. \<not> is_tab c) s #
     (if dropWhile (\<lambda>c. \<not> is_tab c) s = [] then []
      else split_tab (drop 1 (dropWhile (\<lambda>c. \<not> is_tab c) s)))"
  using split_tab_nonempty [of s] hd_split_tab [of s] tl_split_tab [of s]
  by (cases "split_tab s") auto

lemma nonempty_fields_skip_tabs: "nonempty_fields (dropWhile is_tab s) = nonempty_fields s"
  by (induction s) (auto simp: nonempty_fields_def)

lemma nonempty_fields_Nil: "nonempty_fields [] = []"
  by (simp add: nonempty_fields_def)

lemma nonempty_fields_token:
  assumes "s \<noteq> []" and "\<not> is_tab (hd s)"
  shows "nonempty_fields s =
     takeWhile (\<lambda>c. \<not> is_tab c) s # nonempty_fields (drop 1 (dropWhile (\<lambda>c. \<not> is_tab c) s))"
proof -
  define tok where "tok = takeWhile (\<lambda>c. \<not> is_tab c) s"
  define d where "d = dropWhile (\<lambda>c. \<not> is_tab c) s"
  have ne: "tok \<noteq> []"
    using assms by (cases s) (auto simp: tok_def)
  have "split_tab s = tok # (if d = [] then [] else split_tab (drop 1 d))"
    unfolding tok_def d_def by (rule split_tab_unfold)
  then have "nonempty_fields s = tok # nonempty_fields (drop 1 d)"
    using ne by (cases "d = []") (simp_all add: nonempty_fields_def)
  then show ?thesis by (simp add: tok_def d_def)
qed

lemma strtok_None:
  assumes "strtok s = None"
  shows "nonempty_fields s = []"
proof -
  from assms have "dropWhile is_tab s = []"
    by (simp add: strtok_def Let_def split: if_splits)
  then have "nonempty_fields (dropWhile is_tab s) = []"
    by (simp only: nonempty_fields_Nil)
  then show ?thesis by (simp only: nonempty_fields_skip_tabs)
qed

lemma strtok_Some:
  assumes "strtok s = Some (tok, rest)"
  shows "nonempty_fields s = tok # nonempty_fields rest"
proof -
  let ?s1 = "dropWhile is_tab s"
  from assms have ne: "?s1 \<noteq> []"
    and tok: "tok = takeWhile (\<lambda>c. \<not> is_tab c) ?s1"
    and rest: "rest = drop 1 (dropWhile (\<lambda>c. \<not> is_tab c) ?s1)"
    by (auto simp: strtok_def Let_def split: if_splits)
  have "\<not> is_tab (hd ?s1)" using ne by (metis hd_dropWhile)
  from nonempty_fields_token [OF ne this] tok rest
  show ?thesis by (simp add: nonempty_fields_skip_tabs)
qed

lemma collect_tokens_fields:
  "collect_tokens n (strtok s) = take n (nonempty_fields s)"
proof (induction n arbitrary: s)
  case 0
  show ?case by simp
next
  case (Suc n)
  show ?case
  proof (cases "strtok s")
    case None
    then show ?thesis by (simp add: strtok_None)
  next
    case (Some p)
    obtain tok rest where p: "p = (tok, rest)" by (cases p)
    with Some Suc.IH [of rest] strtok_Some [of s tok rest] show ?thesis by simp
  qed
qed

lemma tokenize_fields: "tokenize line = take 9 (filter (\<lambda>f. f \<noteq> []) (raw_fields line))"
  by (simp add: tokenize_def collect_tokens_fields nonempty_fields_def raw_fields_def)

lemma filter_is_tab_chomp: "filter is_tab (chomp s) = filter is_tab s"
proof (cases "s \<noteq> [] \<and> last s = CHR 0x0A")
  case True
  then obtain bs where bs: "s = bs @ [CHR 0x0A]"
    by (metis append_butlast_last_id)
  then have "chomp s = bs" by (simp add: chomp_def)
  with bs show ?thesis by (simp add: is_tab_def)
next
  case False
  then show ?thesis by (auto simp: chomp_def)
qed

lemma length_fields: "length (line_fields line) = length (raw_fields line)"
  by (simp add: line_fields_def raw_fields_def length_split_tab filter_is_tab_chomp)

lemma length_tokenize_le: "length (tokenize line) \<le> length (line_fields line)"
proof -
  have "length (tokenize line) \<le> length (filter (\<lambda>f. f \<noteq> []) (raw_fields line))"
    by (simp add: tokenize_fields)
  also have "\<dots> \<le> length (raw_fields line)" by (rule length_filter_le)
  finally show ?thesis by (simp add: length_fields)
qed

lemma empty_field_fewer_tokens:
  assumes "[] \<in> set (raw_fields line)"
  shows "length (tokenize line) < length (raw_fields line)"
proof -
  have "length (filter (\<lambda>f. f \<noteq> []) (raw_fields line)) < length (raw_fields line)"
    by (rule length_filter_less [OF assms]) simp
  moreover have "length (tokenize line) \<le> length (filter (\<lambda>f. f \<noteq> []) (raw_fields line))"
    by (simp add: tokenize_fields)
  ultimately show ?thesis by simp
qed

lemma split_tab_snoc:
  "\<not> is_tab c \<Longrightarrow>
   split_tab (s @ [c]) = butlast (split_tab s) @ [last (split_tab s) @ [c]]"
proof (induction s)
  case Nil
  then show ?case by simp
next
  case (Cons a s)
  then show ?case
    using split_tab_nonempty [of s] split_tab_nonempty [of "s @ [c]"]
    by (cases "split_tab s") (auto split: list.splits)
qed

lemma butlast_fields: "butlast (line_fields line) = butlast (raw_fields line)"
proof (cases "c_str line \<noteq> [] \<and> last (c_str line) = CHR 0x0A")
  case True
  then obtain b where b: "c_str line = b @ [CHR 0x0A]"
    by (metis append_butlast_last_id)
  then have "chomp (c_str line) = b" by (simp add: chomp_def)
  moreover have "split_tab (b @ [CHR 0x0A])
      = butlast (split_tab b) @ [last (split_tab b) @ [CHR 0x0A]]"
    by (rule split_tab_snoc) (simp add: is_tab_def)
  ultimately show ?thesis by (simp add: line_fields_def raw_fields_def b)
next
  case False
  then have "chomp (c_str line) = c_str line" by (auto simp: chomp_def)
  then show ?thesis by (simp add: line_fields_def raw_fields_def)
qed

lemma nine_raw_fields_one_empty:
  assumes "length (raw_fields line) = 9" and "[] \<in> set (raw_fields line)"
  shows "analyze_line heap states line = Inr (heap, states)"
proof -
  have "length (tokenize line) < 9"
    using empty_field_fewer_tokens [OF assms(2)] assms(1) by simp
  then show ?thesis by (simp add: analyze_line_def)
qed

section \<open>The run as a fold over its lines\<close>

lemma split_tab_subset: "f \<in> set (split_tab s) \<Longrightarrow> set f \<subseteq> set s"
proof (induction s arbitrary: f)
  case Nil
  then show ?case by simp
next
  case (Cons c cs)
  show ?case
  proof (cases "is_tab c")
    case True
    with Cons show ?thesis by auto
  next
    case False
    obtain g gs where g: "split_tab cs = g # gs"
      using split_tab_nonempty [of cs] by (cases "split_tab cs") auto
    with False Cons.prems have "f = c # g \<or> f \<in> set gs" by simp
    then show ?thesis
    proof
      assume "f = c # g"
      moreover have "set g \<subseteq> set cs" using Cons.IH [of g] g by simp
      ultimately show ?thesis by auto
    next
      assume "f \<in> set gs"
      then have "set f \<subseteq> set cs" using Cons.IH [of f] g by simp
      then show ?thesis by auto
    qed
  qed
qed

lemma token_of_line:
  assumes "tok \<in> set (tokenize line)"
  shows "tok \<noteq> [] \<and> CHR 0x00 \<notin> set tok"
proof -
  from assms have "tok \<in> set (filter (\<lambda>f. f \<noteq> []) (raw_fields line))"
    unfolding tokenize_fields by (rule in_set_takeD)
  then have ne: "tok \<noteq> []" and "tok \<in> set (split_tab (c_str line))"
    by (simp_all add: raw_fields_def)
  then have "set tok \<subseteq> set (c_str line)" by (simp add: split_tab_subset)
  moreover have "CHR 0x00 \<notin> set (c_str line)"
    unfolding c_str_def by (auto dest: set_takeWhileD)
  ultimately show ?thesis using ne by auto
qed

lemma code_in_fresh_chunk:
  assumes "tok \<noteq> []" and "CHR 0x00 \<notin> set tok"
  shows "c_str (strncpy2 tok @ [CHR 0x00]) = take 2 tok"
proof -
  have t: "c_str tok = tok"
    unfolding c_str_def using assms(2) by (auto simp: takeWhile_eq_all_conv)
  from assms(1) obtain c r where c: "tok = c # r" by (cases tok) auto
  show ?thesis
  proof (cases r)
    case Nil
    with c assms(2) show ?thesis
      unfolding strncpy2_def t by (auto simp: c_str_def)
  next
    case (Cons d r')
    with c assms(2) show ?thesis
      unfolding strncpy2_def t by (auto simp: c_str_def)
  qed
qed

lemma create_state_fresh:
  assumes "is_record line"
  shows "create_state (CHR 0x00 # heap) (tokenize line) = Inr (heap, blank_state (line_code line))"
proof -
  from assms have "0 < length (tokenize line)" by (auto simp: is_record_def)
  then have "tokenize line ! 0 \<in> set (tokenize line)" by (rule nth_mem)
  then have "tokenize line ! 0 \<noteq> [] \<and> CHR 0x00 \<notin> set (tokenize line ! 0)"
    by (rule token_of_line)
  then have "c_str (strncpy2 (tokenize line ! 0) @ [CHR 0x00]) = take 2 (tokenize line ! 0)"
    by (simp add: code_in_fresh_chunk)
  then show ?thesis by (simp add: blank_state_def line_code_def)
qed

lemma strcmp_code_eq:
  "length a \<le> n \<Longrightarrow> length b \<le> n \<Longrightarrow>
   strcmp_code n a b =
     (if a \<noteq> b then Some False else if length a < n then Some True else None)"
  by (induction n a b rule: strcmp_code.induct) auto

lemma strcmp_code_terminated:
  "length a < 3 \<Longrightarrow> length b < 3 \<Longrightarrow> strcmp_code 3 a b = Some (a = b)"
  using strcmp_code_eq [of a 3 b] by auto

lemma code_update_state_info: "code (update_state_info s tokens) = code s"
  by (simp add: update_state_info_def Let_def)

lemma states_loop_terminated:
  "terminated_codes states \<Longrightarrow> length (code st) < 3 \<Longrightarrow>
   states_loop states st t = Inr (terminated_loop states st t)"
  by (induction states st t rule: terminated_loop.induct)
    (auto simp: terminated_codes_def strcmp_code_terminated)

lemma terminated_loop_keeps:
  "terminated_codes states \<Longrightarrow> length (code st) < 3 \<Longrightarrow>
   terminated_codes (terminated_loop states st t)"
  by (induction states st t rule: terminated_loop.induct)
    (auto simp: terminated_codes_def code_update_state_info)

lemma fold_line_keeps: "terminated_codes states \<Longrightarrow> terminated_codes (fold_line states line)"
  by (simp add: fold_line_def terminated_loop_keeps blank_state_def line_code_def)

lemma foldl_fold_line_keeps:
  "terminated_codes states \<Longrightarrow> terminated_codes (foldl fold_line states ls)"
  by (induction ls arbitrary: states) (simp_all add: fold_line_keeps)

lemma fold_line_skip: "\<not> is_record line \<Longrightarrow> fold_line states line = states"
  by (simp add: fold_line_def)

lemma analyze_line_skip:
  "\<not> is_record line \<Longrightarrow> analyze_line heap states line = Inr (heap, states)"
  by (simp add: analyze_line_def is_record_def)

lemma analyze_line_no_heap: "is_record line \<Longrightarrow> analyze_line [] states line = Inl Alloc_failed"
  by (simp add: analyze_line_def is_record_def)

lemma analyze_line_fresh:
  assumes "terminated_codes states" and "is_record line"
  shows "analyze_line (CHR 0x00 # heap) states line = Inr (heap, fold_line states line)"
proof -
  have "length (code (blank_state (line_code line))) < 3"
    by (simp add: blank_state_def line_code_def)
  with assms(1)
  have "states_loop states (blank_state (line_code line)) (tokenize line)
      = Inr (terminated_loop states (blank_state (line_code line)) (tokenize line))"
    by (rule states_loop_terminated)
  then show ?thesis
    using assms(2) create_state_fresh [OF assms(2), of heap]
    by (simp add: analyze_line_def fold_line_def is_record_def Let_def)
qed

declare analyze_file.simps [simp del] file_lines.simps [simp del]

lemma analyze_file_step:
  "content \<noteq> [] \<Longrightarrow> fgets (LINE_SIZE - 1) content = (line, rest) \<Longrightarrow>
   analyze_file heap states content =
     (case analyze_line heap states line of
        Inl e \<Rightarrow> Inl e
      | Inr (heap', states') \<Rightarrow> analyze_file heap' states' rest)"
  by (subst analyze_file.simps) simp

lemma file_lines_step:
  "content \<noteq> [] \<Longrightarrow> fgets (LINE_SIZE - 1) content = (line, rest) \<Longrightarrow>
   file_lines content = line # file_lines rest"
  by (subst file_lines.simps) simp

lemma analyze_file_Nil: "analyze_file heap states [] = Inr (heap, states)"
  by (subst analyze_file.simps) simp

lemma file_lines_Nil: "file_lines [] = []"
  by (subst file_lines.simps) simp

lemma analyze_file_eq:
  "terminated_codes states \<Longrightarrow> set heap \<subseteq> {CHR 0x00} \<Longrightarrow>
   analyze_file heap states content =
     (if length (filter is_record (file_lines content)) \<le> length heap
      then Inr (drop (length (filter is_record (file_lines content))) heap,
                foldl fold_line states (file_lines content))
      else Inl Alloc_failed)"
proof (induction heap states content rule: analyze_file.induct)
  case (1 heap states content)
  note tc = "1.prems"(1) and fh = "1.prems"(2)
  show ?case
  proof (cases "content = []")
    case True
    then show ?thesis
      by (simp add: analyze_file_Nil file_lines_Nil)
  next
    case False
    obtain line rest where lr: "fgets (LINE_SIZE - 1) content = (line, rest)"
      by (cases "fgets (LINE_SIZE - 1) content")
    have fl: "file_lines content = line # file_lines rest"
      using False lr by (rule file_lines_step)
    show ?thesis
    proof (cases "is_record line")
      case nr: False
      have al: "analyze_line heap states line = Inr (heap, states)"
        using nr by (rule analyze_line_skip)
      have "analyze_file heap states content = analyze_file heap states rest"
        using al by (simp add: analyze_file_step [OF False lr])
      also have "\<dots> = (if length (filter is_record (file_lines rest)) \<le> length heap
          then Inr (drop (length (filter is_record (file_lines rest))) heap,
                    foldl fold_line states (file_lines rest))
          else Inl Alloc_failed)"
        using "1.IH" [OF False lr [symmetric] al refl tc fh] .
      finally show ?thesis using nr fl fold_line_skip [of line states] by simp
    next
      case r: True
      show ?thesis
      proof (cases heap)
        case Nil
        then have "analyze_line heap states line = Inl Alloc_failed"
          using r by (simp add: analyze_line_no_heap)
        then have "analyze_file heap states content = Inl Alloc_failed"
          by (simp add: analyze_file_step [OF False lr])
        then show ?thesis
          using Nil r fl by simp
      next
        case (Cons stale h)
        with fh have st: "stale = CHR 0x00" and fh': "set h \<subseteq> {CHR 0x00}" by auto
        have al: "analyze_line heap states line = Inr (h, fold_line states line)"
          unfolding Cons st using tc r by (rule analyze_line_fresh)
        have tc': "terminated_codes (fold_line states line)"
          using tc by (rule fold_line_keeps)
        have "analyze_file heap states content = analyze_file h (fold_line states line) rest"
          using al by (simp add: analyze_file_step [OF False lr])
        also have "\<dots> = (if length (filter is_record (file_lines rest)) \<le> length h
          then Inr (drop (length (filter is_record (file_lines rest))) h,
                    foldl fold_line (fold_line states line) (file_lines rest))
          else Inl Alloc_failed)"
          using "1.IH" [OF False lr [symmetric] al refl tc' fh'] .
        finally show ?thesis using r fl Cons by simp
      qed
    qed
  qed
qed

lemma main_loop_eq:
  "terminated_codes states \<Longrightarrow> set heap \<subseteq> {CHR 0x00} \<Longrightarrow>
   main_loop heap states files =
     (if length (records files) \<le> length heap
      then Inr (drop (length (records files)) heap, foldl fold_line states (input_lines files))
      else Inl Alloc_failed)"
proof (induction files arbitrary: heap states)
  case Nil
  show ?case by (simp add: records_def input_lines_def)
next
  case (Cons f files)
  show ?case
  proof (cases f)
    case None
    then show ?thesis
      using Cons.IH [OF Cons.prems] by (simp add: records_def input_lines_def)
  next
    case (Some content)
    let ?n = "length (filter is_record (file_lines content))"
    have tc': "terminated_codes (foldl fold_line states (file_lines content))"
      using Cons.prems(1) by (rule foldl_fold_line_keeps)
    have fh': "set (drop ?n heap) \<subseteq> {CHR 0x00}"
      using Cons.prems(2) by (auto dest: in_set_dropD)
    show ?thesis
      using Cons.IH [OF tc' fh'] Some analyze_file_eq [OF Cons.prems, of content]
      by (auto simp: records_def input_lines_def add.commute)
  qed
qed

lemma terminated_codes_empty: "terminated_codes (replicate n None)"
  by (simp add: terminated_codes_def list_all_iff)

lemma main_eq:
  "set heap \<subseteq> {CHR 0x00} \<Longrightarrow>
   main heap files =
     (if files = [] then Inl Usage
      else if length (records files) \<le> length heap
      then Inr (foldl fold_line (replicate NUM_STATES None) (input_lines files))
      else Inl Alloc_failed)"
  by (simp add: main_def main_loop_eq terminated_codes_empty)

section \<open>The array after a run\<close>

lemma first_seen_snoc:
  "first_seen (xs @ [x]) = (if x \<in> set xs then first_seen xs else first_seen xs @ [x])"
  by (simp add: first_seen_def)

lemma set_first_seen: "set (first_seen xs) = set xs"
  by (simp add: first_seen_def)

lemma distinct_first_seen: "distinct (first_seen xs)"
  by (simp add: first_seen_def)

lemma code_foldl_update: "code (foldl update_state_info s ts) = code s"
  by (induction ts arbitrary: s) (simp_all add: code_update_state_info)

lemma code_folded: "code (folded c ls) = c"
  by (simp add: folded_def code_foldl_update blank_state_def)

lemma terminated_loop_install:
  "code st \<notin> code ` set accs \<Longrightarrow>
   terminated_loop (map Some accs @ None # rest) st t = map Some accs @ Some st # rest"
  by (induction accs) auto

lemma terminated_loop_full:
  "code st \<notin> code ` set accs \<Longrightarrow> terminated_loop (map Some accs) st t = map Some accs"
  by (induction accs) auto

lemma terminated_loop_update:
  "code st \<in> code ` set accs \<Longrightarrow> distinct (map code accs) \<Longrightarrow>
   terminated_loop (map Some accs @ rest) st t =
     map Some (map (\<lambda>a. if code a = code st then update_state_info a t else a) accs) @ rest"
proof (induction accs)
  case Nil
  then show ?case by simp
next
  case (Cons a accs)
  show ?case
  proof (cases "code a = code st")
    case True
    have "code a \<notin> code ` set accs" using Cons.prems(2) by simp
    with True have "\<forall>b \<in> set accs. code b \<noteq> code st" by (metis image_eqI)
    then have "map (\<lambda>a. if code a = code st then update_state_info a t else a) accs = accs"
      by (simp add: map_idI)
    with True show ?thesis by simp
  next
    case False
    with Cons show ?thesis by auto
  qed
qed

lemma seen_codes_snoc:
  "seen_codes (ls @ [l]) =
     (if is_record l \<and> line_code l \<notin> set (seen_codes ls) then seen_codes ls @ [line_code l]
      else seen_codes ls)"
  by (simp add: seen_codes_def first_seen_snoc set_first_seen)

lemma set_seen_codes: "set (seen_codes ls) = line_code ` {l \<in> set ls. is_record l}"
  by (auto simp: seen_codes_def set_first_seen)

lemma records_of_empty: "c \<notin> set (seen_codes ls) \<Longrightarrow> records_of c ls = []"
  by (auto simp: set_seen_codes records_of_def filter_empty_conv)

lemma records_of_nonempty: "c \<in> set (seen_codes ls) \<Longrightarrow> records_of c ls \<noteq> []"
  by (auto simp: set_seen_codes records_of_def filter_empty_conv)

lemma folded_other:
  "\<not> (is_record l \<and> line_code l = c) \<Longrightarrow> folded c (ls @ [l]) = folded c ls"
  by (auto simp: folded_def records_of_def)

lemma folded_first:
  "is_record l \<Longrightarrow> line_code l \<notin> set (seen_codes ls) \<Longrightarrow>
   folded (line_code l) (ls @ [l]) = blank_state (line_code l)"
  using records_of_empty [of "line_code l" ls] by (simp add: folded_def records_of_def)

lemma folded_next:
  "is_record l \<Longrightarrow> line_code l \<in> set (seen_codes ls) \<Longrightarrow>
   folded (line_code l) (ls @ [l]) = update_state_info (folded (line_code l) ls) (tokenize l)"
  using records_of_nonempty [of "line_code l" ls] by (simp add: folded_def records_of_def)

lemma run_shape: "foldl fold_line (replicate n None) ls = shape n ls"
proof (induction ls rule: rev_induct)
  case Nil
  show ?case by (simp add: shape_def seen_codes_def first_seen_def)
next
  case (snoc l ls)
  let ?cs = "take n (seen_codes ls)"
  let ?accs = "map (\<lambda>c. folded c ls) ?cs"
  have before: "foldl fold_line (replicate n None) ls =
      map Some ?accs @ replicate (n - length (seen_codes ls)) None"
    using snoc.IH by (simp add: shape_def comp_def)
  have codes: "map code ?accs = ?cs" by (simp add: comp_def code_folded)
  have dist: "distinct ?cs" by (simp add: seen_codes_def distinct_first_seen)
  show ?case
  proof (cases "is_record l")
    case False
    then have "shape n (ls @ [l]) = shape n ls"
      by (simp add: shape_def seen_codes_snoc folded_other)
    with False snoc.IH show ?thesis by (simp add: fold_line_skip)
  next
    case rec: True
    let ?c = "line_code l"
    have step: "foldl fold_line (replicate n None) (ls @ [l]) =
        terminated_loop (map Some ?accs @ replicate (n - length (seen_codes ls)) None)
          (blank_state ?c) (tokenize l)"
      using rec before by (simp add: fold_line_def)
    have cb: "code (blank_state ?c) = ?c" by (simp add: blank_state_def)
    show ?thesis
    proof (cases "?c \<in> set ?cs")
      case True
      then have seen: "?c \<in> set (seen_codes ls)" by (meson in_set_takeD)
      have "code (blank_state ?c) \<in> code ` set ?accs"
        using True codes cb by (metis list.set_map)
      moreover have "distinct (map code ?accs)" using dist codes by simp
      ultimately have "foldl fold_line (replicate n None) (ls @ [l]) =
          map Some (map (\<lambda>a. if code a = ?c then update_state_info a (tokenize l) else a) ?accs)
          @ replicate (n - length (seen_codes ls)) None"
        using step terminated_loop_update [of "blank_state ?c" ?accs] cb by simp
      moreover have "map (\<lambda>a. if code a = ?c then update_state_info a (tokenize l) else a) ?accs
          = map (\<lambda>c. folded c (ls @ [l])) ?cs"
        using rec seen by (auto simp: code_folded folded_next folded_other)
      moreover have "seen_codes (ls @ [l]) = seen_codes ls"
        using seen by (simp add: seen_codes_snoc)
      ultimately show ?thesis by (simp add: shape_def comp_def)
    next
      case new: False
      then have notin: "code (blank_state ?c) \<notin> code ` set ?accs"
        using codes cb by (metis list.set_map)
      have "\<forall>x \<in> set ?cs. folded x (ls @ [l]) = folded x ls"
        using new by (metis folded_other)
      then have same: "map (\<lambda>c. folded c (ls @ [l])) ?cs = ?accs"
        by simp
      show ?thesis
      proof (cases "length (seen_codes ls) < n")
        case True
        then have all: "?cs = seen_codes ls" by simp
        with new have unseen: "?c \<notin> set (seen_codes ls)" by simp
        from True obtain k where k: "n - length (seen_codes ls) = Suc k"
          by (metis Suc_diff_Suc)
        have "foldl fold_line (replicate n None) (ls @ [l]) =
            map Some ?accs @ Some (blank_state ?c) # replicate k None"
          using step k terminated_loop_install [OF notin] by simp
        moreover have "seen_codes (ls @ [l]) = seen_codes ls @ [?c]"
          using rec unseen by (simp add: seen_codes_snoc)
        moreover have "n - length (seen_codes ls @ [?c]) = k" using k by simp
        moreover have "take n (seen_codes ls @ [?c]) = seen_codes ls @ [?c]"
          using True by simp
        ultimately show ?thesis
          using same all folded_first [OF rec unseen] by (simp add: shape_def comp_def)
      next
        case False
        then have full: "n - length (seen_codes ls) = 0" by simp
        have "foldl fold_line (replicate n None) (ls @ [l]) = map Some ?accs"
          using step full terminated_loop_full [OF notin] by simp
        moreover have "take n (seen_codes (ls @ [l])) = ?cs"
          using False by (simp add: seen_codes_snoc)
        moreover have "n - length (seen_codes (ls @ [l])) = 0"
          using False by (simp add: seen_codes_snoc)
        ultimately show ?thesis using same by (simp add: shape_def comp_def)
      qed
    qed
  qed
qed

section \<open>The snapshot of a run\<close>

lemma snapshot_Some_None: "snapshot (map Some xs @ replicate k None) = xs"
proof (induction xs)
  case Nil
  show ?case by (induction k) simp_all
next
  case (Cons x xs)
  then show ?case by simp
qed

lemma snapshot_shape: "snapshot (shape n ls) = map (\<lambda>c. folded c ls) (take n (seen_codes ls))"
  using snapshot_Some_None [of "map (\<lambda>c. folded c ls) (take n (seen_codes ls))"]
  by (simp add: shape_def comp_def)

lemma fresh_heap: "set (fresh n) \<subseteq> {CHR 0x00}" "length (fresh n) = n"
  by (auto simp: fresh_def)

lemma main_Inr:
  assumes "set heap \<subseteq> {CHR 0x00}" and "main heap files = Inr states"
  shows "states = shape NUM_STATES (input_lines files)"
  using assms(2) by (simp add: main_eq [OF assms(1)] run_shape split: if_splits)


lemma records_of_input:
  "records_of c (input_lines files) = filter (\<lambda>l. line_code l = c) (records files)"
  by (simp add: records_of_def records_def conj_commute)


lemma num_records_update: "num_records (update_state_info s t) = num_records s + 1"
  by (simp add: update_state_info_def Let_def)

lemma num_records_foldl:
  "num_records (foldl update_state_info s ts) = num_records s + of_nat (length ts)"
  by (induction ts arbitrary: s) (simp_all add: num_records_update)





lemma snapshot_member:
  assumes "set heap \<subseteq> {CHR 0x00}" and "main heap files = Inr states"
    and "info \<in> set (snapshot states)"
  shows "records_of (code info) (input_lines files) \<noteq> []
     \<and> info = folded (code info) (input_lines files)"
proof -
  let ?ls = "input_lines files"
  from assms obtain c where c: "c \<in> set (take NUM_STATES (seen_codes ?ls))"
    and info: "info = folded c ?ls"
    using main_Inr [OF assms(1,2)] by (auto simp: snapshot_shape)
  have code: "code info = c" using info by (simp add: code_folded)
  have "c \<in> set (seen_codes ?ls)" using c by (meson in_set_takeD)
  then have "records_of c ?ls \<noteq> []" by (rule records_of_nonempty)
  with info show ?thesis unfolding code by simp
qed


section \<open>Evaluating runs\<close>

lemma fgets_line:
  "CHR 0x0A \<notin> set l \<Longrightarrow> length l < n \<Longrightarrow> fgets n (l @ CHR 0x0A # rest) = (l @ [CHR 0x0A], rest)"
proof (induction l arbitrary: n)
  case Nil
  then show ?case by (cases n) simp_all
next
  case (Cons c l)
  then show ?case by (cases n) auto
qed

lemma fgets_is_line:
  assumes "is_line l"
  shows "fgets (LINE_SIZE - 1) (l @ rest) = (l, rest)"
proof -
  from assms obtain b where b: "l = b @ [CHR 0x0A]"
    by (metis append_butlast_last_id is_line_def)
  with assms have "CHR 0x0A \<notin> set b" and "length b < LINE_SIZE - 1"
    by (auto simp: is_line_def)
  from fgets_line [OF this, of rest] b show ?thesis by simp
qed

lemma file_lines_concat: "list_all is_line ls \<Longrightarrow> file_lines (concat ls) = ls"
proof (induction ls)
  case Nil
  show ?case by (simp add: file_lines_Nil)
next
  case (Cons l ls)
  then have l: "is_line l" and ls: "list_all is_line ls" by simp_all
  from l have "concat (l # ls) \<noteq> []" by (auto simp: is_line_def)
  moreover have "fgets (LINE_SIZE - 1) (concat (l # ls)) = (l, concat ls)"
    using fgets_is_line [OF l] by simp
  ultimately have "file_lines (concat (l # ls)) = l # file_lines (concat ls)"
    by (rule file_lines_step)
  with Cons.IH [OF ls] show ?case by simp
qed

lemma main_run:
  "files \<noteq> [] \<Longrightarrow> set heap \<subseteq> {CHR 0x00} \<Longrightarrow> length (records files) \<le> length heap \<Longrightarrow>
   main heap files = Inr (shape NUM_STATES (input_lines files))"
  by (simp add: main_eq run_shape)

lemma run_one_record:
  assumes "input_lines files = [l]" and "is_record l" and "1 \<le> n"
  shows "main (fresh n) files =
     Inr (Some (blank_state (line_code l)) # replicate (NUM_STATES - 1) None)"
proof -
  from assms have "files \<noteq> []" by (auto simp: input_lines_def)
  moreover have "length (records files) \<le> length (fresh n)"
    using assms by (simp add: records_def fresh_heap)
  ultimately have "main (fresh n) files = Inr (shape NUM_STATES [l])"
    using assms(1) main_run [of files "fresh n"] by (simp add: fresh_heap)
  moreover have "seen_codes [l] = [line_code l]"
    using assms(2) by (simp add: seen_codes_def first_seen_def)
  moreover have "folded (line_code l) [l] = blank_state (line_code l)"
    using assms(2) by (simp add: folded_def records_of_def)
  ultimately show ?thesis by (simp add: shape_def NUM_STATES_def)
qed

lemma run_two_records:
  assumes "input_lines files = [l1, l2]" and "is_record l1" and "is_record l2"
    and "line_code l2 = line_code l1" and "2 \<le> n"
  shows "main (fresh n) files =
     Inr (Some (update_state_info (blank_state (line_code l1)) (tokenize l2)) #
          replicate (NUM_STATES - 1) None)"
proof -
  from assms have "files \<noteq> []" by (auto simp: input_lines_def)
  moreover have "length (records files) \<le> length (fresh n)"
    using assms by (simp add: records_def fresh_heap)
  ultimately have "main (fresh n) files = Inr (shape NUM_STATES [l1, l2])"
    using assms(1) main_run [of files "fresh n"] by (simp add: fresh_heap)
  moreover have "seen_codes [l1, l2] = [line_code l1]"
    using assms by (simp add: seen_codes_def first_seen_def)
  moreover have "folded (line_code l1) [l1, l2] =
      update_state_info (blank_state (line_code l1)) (tokenize l2)"
    using assms by (simp add: folded_def records_of_def)
  ultimately show ?thesis by (simp add: shape_def NUM_STATES_def)
qed

lemma tokenize_rec_CA1:
  "tokenize rec_CA1 =
     [''CA'', ''1000000'', ''g'', ''50'', ''0'', ''10'', ''1'', ''9'', ''298.15\<newline>'']"
  by code_simp

lemma tokenize_rec_CA2:
  "tokenize rec_CA2 =
     [''CA'', ''2000000'', ''g'', ''60'', ''1'', ''20'', ''0'', ''9'', ''273.15\<newline>'']"
  by code_simp

lemma is_line_samples: "is_line rec_CA1" "is_line rec_CA2"
  by code_simp+

lemma is_record_samples: "is_record rec_CA1" "is_record rec_CA2"
  by (simp_all add: is_record_def tokenize_rec_CA1 tokenize_rec_CA2)

lemma line_code_samples: "line_code rec_CA1 = ''CA''" "line_code rec_CA2 = ''CA''"
  by (simp_all add: line_code_def tokenize_rec_CA1 tokenize_rec_CA2)

lemma atof_samples:
  "atof ''50'' = 50" "atof ''60'' = 60" "atof ''10'' = 10" "atof ''20'' = 20"
  "atof ''298.15\<newline>'' = 298.15" "atof ''273.15\<newline>'' = 273.15"
  by code_simp+

lemma atoi_samples:
  "atoi ''0'' = 0" "atoi ''1'' = 1" "atoi ''1000000'' = 1000000" "atoi ''2000000'' = 2000000"
  by code_simp+

lemma input_lines_one_file: "list_all is_line ls \<Longrightarrow> input_lines [Some (concat ls)] = ls"
  by (simp add: input_lines_def file_lines_concat)

lemma update_blank_rec_CA2:
  "update_state_info (blank_state ''CA'') (tokenize rec_CA2) =
     \<lparr>code = ''CA'', num_records = 1, humidity_sum = 60, temperature_sum = 32,
      max_temp = 32, min_temp = 32, max_temp_timestamp = 2000, min_temp_timestamp = 2000,
      lightning_strikes = 0, snow_cover_records = 1, cloud_cover_sum = 20\<rparr>"
  by (simp add: tokenize_rec_CA2 update_state_info_def blank_state_def Let_def
      kelvin_to_fahrenheit_def c_div_def DBL_MAX_def atof_samples atoi_samples)

lemma tokenize_rec_CA3:
  "tokenize rec_CA3 =
     [''CA'', ''3000000'', ''g'', ''70'', ''0'', ''30'', ''0'', ''9'', ''273.15\<newline>'']"
  by code_simp

lemma tokenize_rec_hdr:
  "tokenize rec_hdr =
     [''CA'', ''1428300000000'', ''9prcjqk3yc80'', ''93.0'', ''0.0'', ''100.0'', ''0.0'',
      ''95644.0'', ''277.58716\<newline>'']"
  by code_simp

lemma is_line_more: "is_line rec_CA3" "is_line rec_hdr" "is_line short_line"
  by code_simp+

lemma atof_more:
  "atof ''70'' = 70" "atof ''30'' = 30" "atof ''93.0'' = 93" "atof ''100.0'' = 100"
  "atof ''277.58716\<newline>'' = 277.58716"
  by code_simp+

lemma atoi_more:
  "atoi ''3000000'' = 3000000" "atoi ''0.0'' = 0" "atoi ''1428300000000'' = - 1924109568"
  by code_simp+

lemma update_blank_rec_CA1:
  "update_state_info (blank_state ''CA'') (tokenize rec_CA1) =
     \<lparr>code = ''CA'', num_records = 1, humidity_sum = 50, temperature_sum = 77,
      max_temp = 77, min_temp = 77, max_temp_timestamp = 1000, min_temp_timestamp = 1000,
      lightning_strikes = 1, snow_cover_records = 0, cloud_cover_sum = 10\<rparr>"
  by (simp add: tokenize_rec_CA1 update_state_info_def blank_state_def Let_def
      kelvin_to_fahrenheit_def c_div_def DBL_MAX_def atof_samples atoi_samples)

lemma update_blank_rec_hdr:
  "update_state_info (blank_state ''CA'') (tokenize rec_hdr) =
     \<lparr>code = ''CA'', num_records = 1, humidity_sum = 93, temperature_sum = 39.986888,
      max_temp = 39.986888, min_temp = 39.986888, max_temp_timestamp = - 1924109,
      min_temp_timestamp = - 1924109, lightning_strikes = 0, snow_cover_records = 0,
      cloud_cover_sum = 100\<rparr>"
  by (simp add: tokenize_rec_hdr update_state_info_def blank_state_def Let_def
      kelvin_to_fahrenheit_def c_div_def DBL_MAX_def atof_more atoi_more)

lemma tokenize_WA_TN:
  "tokenize rec_WA1 =
     [''WA'', ''1000000'', ''g'', ''50'', ''0'', ''10'', ''1'', ''9'', ''298.15\<newline>'']"
  "tokenize rec_TN =
     [''TN'', ''2000000'', ''g'', ''60'', ''1'', ''20'', ''0'', ''9'', ''273.15\<newline>'']"
  "tokenize rec_WA2 =
     [''WA'', ''3000000'', ''g'', ''70'', ''0'', ''30'', ''0'', ''9'', ''273.15\<newline>'']"
  by code_simp+

lemma is_line_WA_TN: "is_line rec_WA1" "is_line rec_TN" "is_line rec_WA2"
  by code_simp+

lemma records_WA_TN:
  "input_lines [Some (rec_WA1 @ rec_TN), None, Some rec_WA2] = [rec_WA1, rec_TN, rec_WA2]"
  "records [Some (rec_WA1 @ rec_TN), None, Some rec_WA2] = [rec_WA1, rec_TN, rec_WA2]"
  "map line_code [rec_WA1, rec_TN, rec_WA2] = [''WA'', ''TN'', ''WA'']"
proof -
  have "file_lines (rec_WA1 @ rec_TN) = [rec_WA1, rec_TN]"
    using file_lines_concat [of "[rec_WA1, rec_TN]"] by (simp add: is_line_WA_TN)
  moreover have "file_lines rec_WA2 = [rec_WA2]"
    using file_lines_concat [of "[rec_WA2]"] by (simp add: is_line_WA_TN)
  ultimately show il: "input_lines [Some (rec_WA1 @ rec_TN), None, Some rec_WA2]
      = [rec_WA1, rec_TN, rec_WA2]"
    by (simp add: input_lines_def)
  show "records [Some (rec_WA1 @ rec_TN), None, Some rec_WA2] = [rec_WA1, rec_TN, rec_WA2]"
    by (simp add: records_def il is_record_def tokenize_WA_TN)
  show "map line_code [rec_WA1, rec_TN, rec_WA2] = [''WA'', ''TN'', ''WA'']"
    by (simp add: line_code_def tokenize_WA_TN)
qed



lemma fields_rec_empty_geo:
  "line_fields rec_empty_geo = [''CA'', ''3000000'', '''', ''70'', ''0'', ''30'', ''0'', ''9'', ''273.15'']"
  by code_simp

lemma fields_rec_unfinished:
  "line_fields rec_unfinished = [''CA'', ''3000000'', ''g'', ''70'', ''0'', ''30'', ''0'', ''9'', []]"
  by code_simp

lemma fields_rec_empty_temp:
  "line_fields rec_empty_temp = [''CA'', ''3000000'', ''g'', ''70'', ''0'', ''30'', ''0'', ''9'', '''']"
  by code_simp

lemma tokenize_rec_empty_temp:
  "tokenize rec_empty_temp =
     [''CA'', ''3000000'', ''g'', ''70'', ''0'', ''30'', ''0'', ''9'', ''\<newline>'']"
  by code_simp

lemma is_line_rec_empty_temp: "is_line rec_empty_temp"
  by code_simp

lemma atof_newline: "atof ''\<newline>'' = 0"
  by code_simp

lemma update_blank_rec_empty_temp:
  "update_state_info (blank_state ''CA'') (tokenize rec_empty_temp) =
     \<lparr>code = ''CA'', num_records = 1, humidity_sum = 70, temperature_sum = - 459.67,
      max_temp = - 459.67, min_temp = - 459.67, max_temp_timestamp = 3000,
      min_temp_timestamp = 3000, lightning_strikes = 0, snow_cover_records = 0,
      cloud_cover_sum = 30\<rparr>"
  by (simp add: tokenize_rec_empty_temp update_state_info_def blank_state_def Let_def
      kelvin_to_fahrenheit_def c_div_def DBL_MAX_def atof_more atoi_more atoi_samples
      atof_newline)

section \<open>Timestamps and extrema\<close>

lemma atoi_range: "- (2 ^ 31) \<le> atoi t \<and> atoi t < 2 ^ 31"
  using sint_ge [of "word_of_int (strtol t) :: 32 word"]
    sint_lt [of "word_of_int (strtol t) :: 32 word"]
  by (simp add: atoi_def)

lemma stored_timestamp_range:
  "- 2147483 \<le> c_div (atoi t) 1000 \<and> c_div (atoi t) 1000 \<le> 2147483"
proof -
  have "\<bar>atoi t\<bar> \<le> 2147483648" using atoi_range [of t] by (simp add: abs_le_iff)
  then have "\<bar>atoi t\<bar> div 1000 \<le> 2147483" by simp
  moreover have "0 \<le> \<bar>atoi t\<bar> div 1000" by simp
  ultimately show ?thesis
    by (cases "atoi t" "0 :: int" rule: linorder_cases) (simp_all add: c_div_def)
qed

lemma atoi_in_range:
  assumes "- (2 ^ 31) \<le> decimal_prefix t" and "decimal_prefix t < 2 ^ 31"
  shows "atoi t = decimal_prefix t"
proof -
  have "strtol t = decimal_prefix t" using assms by (simp add: strtol_def)
  moreover have "sint (word_of_int (decimal_prefix t) :: 32 word) = decimal_prefix t"
    using assms by (simp add: signed_of_int signed_take_bit_int_eq_self)
  ultimately show ?thesis by (simp add: atoi_def)
qed

lemma update_state_info_extrema:
  "max_temp s \<le> max_temp (update_state_info s t)"
  "min_temp (update_state_info s t) \<le> min_temp s"
  "kelvin_to_fahrenheit (atof (t ! 8)) \<le> max_temp (update_state_info s t)"
  "min_temp (update_state_info s t) \<le> kelvin_to_fahrenheit (atof (t ! 8))"
  by (simp_all add: update_state_info_def Let_def)

lemma foldl_update_extrema_mono:
  "max_temp s \<le> max_temp (foldl update_state_info s ts)
   \<and> min_temp (foldl update_state_info s ts) \<le> min_temp s"
proof (induction ts arbitrary: s)
  case Nil
  show ?case by simp
next
  case (Cons t ts)
  from Cons.IH [of "update_state_info s t"] update_state_info_extrema(1,2) [of s t]
  show ?case by simp
qed

lemma foldl_update_extrema:
  "t \<in> set ts \<Longrightarrow>
   kelvin_to_fahrenheit (atof (t ! 8)) \<le> max_temp (foldl update_state_info s ts)
   \<and> min_temp (foldl update_state_info s ts) \<le> kelvin_to_fahrenheit (atof (t ! 8))"
proof (induction ts arbitrary: s)
  case Nil
  then show ?case by simp
next
  case (Cons u ts)
  show ?case
  proof (cases "t = u")
    case True
    from foldl_update_extrema_mono [of "update_state_info s u" ts]
      update_state_info_extrema(3,4) [where s = s and t = u]
    show ?thesis unfolding True by simp
  next
    case False
    with Cons.prems have "t \<in> set ts" by simp
    from Cons.IH [OF this, of "update_state_info s u"] show ?thesis by simp
  qed
qed

lemma folded_records_within_extrema:
  assumes "set heap \<subseteq> {CHR 0x00}" and "main heap files = Inr states"
    and "info \<in> set (snapshot states)"
    and "l \<in> set (tl (filter (\<lambda>l. line_code l = code info) (records files)))"
  shows "kelvin_to_fahrenheit (atof (tokenize l ! 8)) \<le> max_temp info
     \<and> min_temp info \<le> kelvin_to_fahrenheit (atof (tokenize l ! 8))"
proof -
  let ?ts = "map tokenize (tl (records_of (code info) (input_lines files)))"
  have "info = foldl update_state_info (blank_state (code info)) ?ts"
    using snapshot_member [OF assms(1,2,3)] by (simp add: folded_def)
  moreover have "tokenize l \<in> set ?ts"
    using assms(4) by (simp add: records_of_input)
  ultimately show ?thesis
    using foldl_update_extrema [of "tokenize l" ?ts "blank_state (code info)"] by simp
qed

lemma accumulators_of_a_run:
  assumes "files \<noteq> []" and "length (records files) \<le> n"
  shows "\<exists>states. main (fresh n) files = Inr states \<and>
     (\<forall>info \<in> set (snapshot states).
        filter (\<lambda>l. line_code l = code info) (records files) \<noteq> []
        \<and> info = foldl update_state_info (blank_state (code info))
            (map tokenize (tl (filter (\<lambda>l. line_code l = code info) (records files))))
        \<and> num_records info =
            of_nat (length (filter (\<lambda>l. line_code l = code info) (records files)) - 1))"
proof (intro exI conjI ballI)
  show m: "main (fresh n) files = Inr (shape NUM_STATES (input_lines files))"
    using assms main_run [of files "fresh n"] by (simp add: fresh_heap)
  fix info
  assume i: "info \<in> set (snapshot (shape NUM_STATES (input_lines files)))"
  let ?ls = "input_lines files"
  let ?rs = "filter (\<lambda>l. line_code l = code info) (records files)"
  have r: "records_of (code info) ?ls = ?rs" by (rule records_of_input)
  from snapshot_member [OF fresh_heap(1) m i]
  have ne: "records_of (code info) ?ls \<noteq> []" and f: "info = folded (code info) ?ls"
    by simp_all
  show "?rs \<noteq> []" using ne unfolding r .
  show fold: "info = foldl update_state_info (blank_state (code info)) (map tokenize (tl ?rs))"
    using f unfolding folded_def r .
  have "num_records (foldl update_state_info (blank_state (code info)) (map tokenize (tl ?rs)))
      = of_nat (length ?rs - 1)"
    by (simp add: num_records_foldl blank_state_def)
  then show "num_records info = of_nat (length ?rs - 1)"
    using fold by simp
qed

section \<open>One record at a time\<close>

lemma length_strncpy2: "length (strncpy2 src) = 2"
  by (simp add: strncpy2_def)

lemma length_created_code: "length (c_str (strncpy2 tok @ [stale])) \<le> 3"
proof -
  have "length (c_str (strncpy2 tok @ [stale])) \<le> length (strncpy2 tok @ [stale])"
    unfolding c_str_def by (rule length_takeWhile_le)
  then show ?thesis by (simp add: length_strncpy2)
qed

lemma states_loop_prefix:
  "\<forall>a \<in> set accs. strcmp_code 3 (code a) (code st) = Some False \<Longrightarrow>
   states_loop (map Some accs @ later) st t =
     (case states_loop later st t of Inl e \<Rightarrow> Inl e | Inr r \<Rightarrow> Inr (map Some accs @ r))"
  by (induction accs) (auto split: sum.splits)

lemma other_codes_differ:
  assumes "\<forall>a \<in> set accs. length (code a) \<le> 3 \<and> code a \<noteq> c_str (strncpy2 tok @ [stale])"
  shows "\<forall>a \<in> set accs. strcmp_code 3 (code a) (c_str (strncpy2 tok @ [stale])) = Some False"
  using assms strcmp_code_eq [of _ 3 "c_str (strncpy2 tok @ [stale])"] length_created_code [of tok stale]
  by auto


lemma analyze_line_install:
  assumes "9 \<le> length (tokenize line)"
    and "\<forall>a \<in> set accs. length (code a) \<le> 3
           \<and> code a \<noteq> c_str (strncpy2 (tokenize line ! 0) @ [stale])"
  shows "analyze_line (stale # heap) (map Some accs @ None # rest) line =
     Inr (heap, map Some accs @
       Some \<lparr>code = c_str (strncpy2 (tokenize line ! 0) @ [stale]), num_records = 0,
             humidity_sum = 0, temperature_sum = 0, max_temp = - DBL_MAX, min_temp = DBL_MAX,
             max_temp_timestamp = 0, min_temp_timestamp = 0, lightning_strikes = 0,
             snow_cover_records = 0, cloud_cover_sum = 0\<rparr> # rest)"
  using assms(1) other_codes_differ [OF assms(2)]
  by (simp add: analyze_line_def states_loop_prefix)

lemma analyze_line_update:
  assumes "9 \<le> length (tokenize line)"
    and "\<forall>a \<in> set accs. length (code a) \<le> 3
           \<and> code a \<noteq> c_str (strncpy2 (tokenize line ! 0) @ [stale])"
    and "length (code s) < 3"
    and "code s = c_str (strncpy2 (tokenize line ! 0) @ [stale])"
  shows "analyze_line (stale # heap) (map Some accs @ Some s # rest) line =
     Inr (heap, map Some accs @ Some (update_state_info s (tokenize line)) # rest)"
proof -
  have "strcmp_code 3 (code s) (c_str (strncpy2 (tokenize line ! 0) @ [stale])) = Some True"
    using assms(3) strcmp_code_eq [of "code s" 3 "code s"] unfolding assms(4) [symmetric]
    by simp
  then show ?thesis
    using assms(1) other_codes_differ [OF assms(2)]
    by (simp add: analyze_line_def states_loop_prefix)
qed

lemma raw_fields_newline:
  assumes "chomp (c_str line) \<noteq> c_str line"
  shows "raw_fields line = butlast (line_fields line) @ [last (line_fields line) @ [CHR 0x0A]]"
proof -
  from assms have "c_str line \<noteq> [] \<and> last (c_str line) = CHR 0x0A"
    by (auto simp: chomp_def split: if_splits)
  then obtain b where b: "c_str line = b @ [CHR 0x0A]"
    by (metis append_butlast_last_id)
  have "split_tab (b @ [CHR 0x0A]) = butlast (split_tab b) @ [last (split_tab b) @ [CHR 0x0A]]"
    by (rule split_tab_snoc) (simp add: is_tab_def)
  then show ?thesis by (simp add: line_fields_def raw_fields_def b chomp_def)
qed

lemma empty_last_field_tokens:
  assumes "length (line_fields line) = 9" and "[] \<notin> set (butlast (line_fields line))"
    and "last (line_fields line) = []" and "chomp (c_str line) \<noteq> c_str line"
  shows "tokenize line = butlast (line_fields line) @ [[CHR 0x0A]]"
proof -
  have r: "raw_fields line = butlast (line_fields line) @ [[CHR 0x0A]]"
    using raw_fields_newline [OF assms(4)] assms(3) by simp
  have "filter (\<lambda>f. f \<noteq> []) (butlast (line_fields line)) = butlast (line_fields line)"
    using assms(2) by (auto simp: filter_id_conv)
  then show ?thesis unfolding tokenize_fields r using assms(1) by simp
qed

lemma temperature_sum_update:
  "temperature_sum (update_state_info s t) = temperature_sum s + kelvin_to_fahrenheit (atof (t ! 8))"
  by (simp add: update_state_info_def Let_def)

lemma created_code_samples:
  "c_str (strncpy2 ''CA'' @ [CHR 0x00]) = ''CA''"
  "c_str (strncpy2 ''WA'' @ [CHR 0x00]) = ''WA''"
  "c_str (strncpy2 ''TN'' @ [CHR 0x00]) = ''TN''"
  "c_str (strncpy2 ''WA'' @ [CHR 0x14]) = ''WA'' @ [CHR 0x14]"
  by code_simp+

section \<open>The claims\<close>

text \<open>
  C1. The specification's end-to-end example: after the two CA records (77 degrees at
  \<open>T1 = 1000\<close>, then 32 degrees at \<open>T2 = 2000\<close>) the CA accumulator should count 2 records,
  with humidity sum 110, maximum 77 at \<open>T1\<close>, minimum 32 at \<open>T2\<close>, one lightning strike and
  one snow record. The program yields something else: the first record of a state code only
  installs the struct of \<open>create_state\<close> and is never passed to \<open>update_state_info\<close>, so
  the accumulator holds the second record alone (1 record, humidity sum 60, maximum and
  minimum 32 at \<open>T2\<close>, no lightning strike).
\<close>

theorem two_CA_records_run:
  "main (fresh 2) [Some (rec_CA1 @ rec_CA2)] =
     Inr (Some \<lparr>code = ''CA'', num_records = 1, humidity_sum = 60, temperature_sum = 32,
            max_temp = 32, min_temp = 32, max_temp_timestamp = 2000,
            min_temp_timestamp = 2000, lightning_strikes = 0, snow_cover_records = 1,
            cloud_cover_sum = 20\<rparr> # replicate 49 None)
   \<and> kelvin_to_fahrenheit (atof (tokenize rec_CA1 ! 8)) = 77
   \<and> kelvin_to_fahrenheit (atof (tokenize rec_CA2 ! 8)) = 32"
proof -
  have "input_lines [Some (rec_CA1 @ rec_CA2)] = [rec_CA1, rec_CA2]"
    using input_lines_one_file [of "[rec_CA1, rec_CA2]"] by (simp add: is_line_samples)
  from run_two_records [OF this, of 2]
  have "main (fresh 2) [Some (rec_CA1 @ rec_CA2)] =
      Inr (Some (update_state_info (blank_state ''CA'') (tokenize rec_CA2)) # replicate 49 None)"
    by (simp add: is_record_samples line_code_samples NUM_STATES_def)
  then show ?thesis
    by (simp add: update_blank_rec_CA2)
      (simp add: tokenize_rec_CA1 tokenize_rec_CA2 atof_samples kelvin_to_fahrenheit_def)
qed

text \<open>
  C2. Every accumulator of the snapshot should have \<open>num_records\<close> at least 1, so that the
  averages of the report never divide by zero. The program breaks this after a single
  record: the accumulator of CA is the untouched struct of \<open>create_state\<close>, its
  \<open>num_records\<close> is 0, and all three averages of the report are quotients by zero.
\<close>

theorem single_record_run:
  "main (fresh 1) [Some rec_CA1] = Inr (Some (blank_state ''CA'') # replicate 49 None)
   \<and> map num_records (snapshot (Some (blank_state ''CA'') # replicate 49 None)) = [0]
   \<and> map average_humidity (print_report (Some (blank_state ''CA'') # replicate 49 None)) = [None]
   \<and> map average_temperature (print_report (Some (blank_state ''CA'') # replicate 49 None)) = [None]
   \<and> map average_cloud_cover (print_report (Some (blank_state ''CA'') # replicate 49 None)) = [None]"
proof -
  have "input_lines [Some rec_CA1] = [rec_CA1]"
    using input_lines_one_file [of "[rec_CA1]"] by (simp add: is_line_samples)
  from run_one_record [OF this, of 1]
  have "main (fresh 1) [Some rec_CA1] = Inr (Some (blank_state ''CA'') # replicate 49 None)"
    by (simp add: is_record_samples line_code_samples NUM_STATES_def)
  moreover have "snapshot (replicate n None) = []" for n
    by (induction n) simp_all
  ultimately show ?thesis
    by (simp add: print_report_def average_def blank_state_def)
qed






text \<open>
  C5. The final maximum should be at least, and the final minimum at most, the temperature
  of every record processed for the state. The first record of a state is processed but
  never compared: after 77 then 32 degrees the maximum is 32, and after 32 then 77 degrees
  the minimum is 77.
\<close>

theorem first_record_escapes_extrema:
  "map_sum id (map max_temp \<circ> snapshot) (main (fresh 2) [Some (rec_CA1 @ rec_CA2)]) = Inr [32]
   \<and> kelvin_to_fahrenheit (atof (tokenize rec_CA1 ! 8)) = 77
   \<and> map_sum id (map min_temp \<circ> snapshot) (main (fresh 2) [Some (rec_CA2 @ rec_CA1)]) = Inr [77]
   \<and> kelvin_to_fahrenheit (atof (tokenize rec_CA2 ! 8)) = 32"
proof -
  have sn: "snapshot (replicate n None) = []" for n
    by (induction n) simp_all
  have "input_lines [Some (rec_CA1 @ rec_CA2)] = [rec_CA1, rec_CA2]"
    using input_lines_one_file [of "[rec_CA1, rec_CA2]"] by (simp add: is_line_samples)
  from run_two_records [OF this, of 2]
  have a: "main (fresh 2) [Some (rec_CA1 @ rec_CA2)] =
      Inr (Some (update_state_info (blank_state ''CA'') (tokenize rec_CA2)) # replicate 49 None)"
    by (simp add: is_record_samples line_code_samples NUM_STATES_def)
  have "input_lines [Some (rec_CA2 @ rec_CA1)] = [rec_CA2, rec_CA1]"
    using input_lines_one_file [of "[rec_CA2, rec_CA1]"] by (simp add: is_line_samples)
  from run_two_records [OF this, of 2]
  have b: "main (fresh 2) [Some (rec_CA2 @ rec_CA1)] =
      Inr (Some (update_state_info (blank_state ''CA'') (tokenize rec_CA1)) # replicate 49 None)"
    by (simp add: is_record_samples line_code_samples NUM_STATES_def)
  show ?thesis
    by (simp add: a b sn update_blank_rec_CA1 update_blank_rec_CA2)
      (simp add: tokenize_rec_CA1 tokenize_rec_CA2 atof_samples kelvin_to_fahrenheit_def)
qed

text \<open>
  C6. A record whose Fahrenheit temperature equals the current maximum leaves the maximum
  and its timestamp as they are, and likewise for the minimum: the comparisons of
  \<open>update_state_info\<close> are strict, so the first record with an extreme value keeps it.
\<close>

theorem tie_keeps_first_extremum:
  "(kelvin_to_fahrenheit (atof (tokens ! 8)) = max_temp s \<longrightarrow>
      max_temp (update_state_info s tokens) = max_temp s \<and>
      max_temp_timestamp (update_state_info s tokens) = max_temp_timestamp s) \<and>
   (kelvin_to_fahrenheit (atof (tokens ! 8)) = min_temp s \<longrightarrow>
      min_temp (update_state_info s tokens) = min_temp s \<and>
      min_temp_timestamp (update_state_info s tokens) = min_temp_timestamp s)"
  by (simp add: update_state_info_def Let_def)

theorem tie_keeps_first_extremum_witness:
  "kelvin_to_fahrenheit (atof (tokenize rec_CA3 ! 8))
     = max_temp (update_state_info (blank_state ''CA'') (tokenize rec_CA2))
   \<and> kelvin_to_fahrenheit (atof (tokenize rec_CA3 ! 8))
     = min_temp (update_state_info (blank_state ''CA'') (tokenize rec_CA2))
   \<and> c_div (atoi (tokenize rec_CA3 ! 1)) 1000 = 3000
   \<and> max_temp_timestamp
       (update_state_info (update_state_info (blank_state ''CA'') (tokenize rec_CA2))
          (tokenize rec_CA3)) = 2000
   \<and> min_temp_timestamp
       (update_state_info (update_state_info (blank_state ''CA'') (tokenize rec_CA2))
          (tokenize rec_CA3)) = 2000"
proof -
  have t: "kelvin_to_fahrenheit (atof (tokenize rec_CA3 ! 8)) = 32"
    by (simp add: tokenize_rec_CA3 atof_samples kelvin_to_fahrenheit_def)
  have ts: "c_div (atoi (tokenize rec_CA3 ! 1)) 1000 = 3000"
    by (simp add: tokenize_rec_CA3 atoi_more c_div_def)
  have mx: "max_temp (update_state_info (blank_state ''CA'') (tokenize rec_CA2)) = 32"
    and mn: "min_temp (update_state_info (blank_state ''CA'') (tokenize rec_CA2)) = 32"
    and mxt: "max_temp_timestamp (update_state_info (blank_state ''CA'') (tokenize rec_CA2)) = 2000"
    and mnt: "min_temp_timestamp (update_state_info (blank_state ''CA'') (tokenize rec_CA2)) = 2000"
    by (simp_all add: update_blank_rec_CA2)
  from tie_keeps_first_extremum
    [of "tokenize rec_CA3" "update_state_info (blank_state ''CA'') (tokenize rec_CA2)"]
  show ?thesis using t ts mx mn mxt mnt by simp
qed

text \<open>
  C7. The timestamp stored with an extremum should be the millisecond field divided by
  1000, also for epoch values above \<open>2^31\<close>. The program converts the field with \<open>atoi\<close>,
  whose result is a 32-bit \<open>int\<close>: for the timestamp 1428300000000 of the header comment's
  first sample line the stored value is \<open>-1924109\<close>, not 1428300000.
\<close>

theorem epoch_milliseconds_overflow_int:
  "map_sum id (map max_temp_timestamp \<circ> snapshot) (main (fresh 2) [Some (rec_hdr @ rec_hdr)])
     = Inr [- 1924109]
   \<and> map_sum id (map min_temp_timestamp \<circ> snapshot) (main (fresh 2) [Some (rec_hdr @ rec_hdr)])
     = Inr [- 1924109]
   \<and> c_div (decimal_prefix (tokenize rec_hdr ! 1)) 1000 = 1428300000"
proof -
  have sn: "snapshot (replicate n None) = []" for n
    by (induction n) simp_all
  have "input_lines [Some (rec_hdr @ rec_hdr)] = [rec_hdr, rec_hdr]"
    using input_lines_one_file [of "[rec_hdr, rec_hdr]"] by (simp add: is_line_more)
  from run_two_records [OF this, of 2]
  have a: "main (fresh 2) [Some (rec_hdr @ rec_hdr)] =
      Inr (Some (update_state_info (blank_state ''CA'') (tokenize rec_hdr)) # replicate 49 None)"
    by (simp add: is_record_def line_code_def tokenize_rec_hdr NUM_STATES_def)
  have d: "decimal_prefix ''1428300000000'' = 1428300000000"
    by code_simp
  show ?thesis
    by (simp add: a sn update_blank_rec_hdr) (simp add: tokenize_rec_hdr d c_div_def)
qed

text \<open>
  C8. The snapshot should list the accumulators in the order in which their state codes
  first appear in the input, over all files of the run: records with the codes WA, TN, WA
  should give the snapshot order WA, TN. The program finds the accumulator of a record by
  \<open>strcmp\<close> on the codes, and \<open>create_state\<close> never writes the third byte of a code: when
  the chunk of the third record holds the byte \<open>0x14\<close> there, the code of its struct is
  three bytes long, equals neither WA nor TN, and the second WA record gets an accumulator
  of its own. The snapshot has three accumulators, two of them for WA.
\<close>

theorem recycled_chunk_splits_a_code:
  "map line_code (records [Some (rec_WA1 @ rec_TN), None, Some rec_WA2]) = [''WA'', ''TN'', ''WA'']
   \<and> main [CHR 0x00, CHR 0x00, CHR 0x14] [Some (rec_WA1 @ rec_TN), None, Some rec_WA2]
       = Inr (Some (blank_state ''WA'') # Some (blank_state ''TN'') #
              Some (blank_state (''WA'' @ [CHR 0x14])) # replicate 47 None)
   \<and> map code (snapshot (Some (blank_state ''WA'') # Some (blank_state ''TN'') #
              Some (blank_state (''WA'' @ [CHR 0x14])) # replicate 47 None))
       = [''WA'', ''TN'', ''WA'' @ [CHR 0x14]]"
proof -
  let ?files = "[Some (rec_WA1 @ rec_TN), None, Some rec_WA2]"
  let ?WA = "blank_state ''WA''"
  let ?TN = "blank_state ''TN''"
  let ?WA' = "blank_state (''WA'' @ [CHR 0x14])"
  have 1: "map line_code (records ?files) = [''WA'', ''TN'', ''WA'']"
    unfolding records_WA_TN(2) by (rule records_WA_TN(3))
  have rep: "replicate 50 None = None # replicate 49 (None :: climate_info option)"
    "replicate 49 None = None # replicate 48 (None :: climate_info option)"
    "replicate 48 None = None # replicate 47 (None :: climate_info option)"
    using replicate_Suc [of 49 "None :: climate_info option"]
      replicate_Suc [of 48 "None :: climate_info option"]
      replicate_Suc [of 47 "None :: climate_info option"] by simp_all
  have r: "9 \<le> length (tokenize rec_WA1)" "9 \<le> length (tokenize rec_TN)"
    "9 \<le> length (tokenize rec_WA2)"
    by (simp_all add: tokenize_WA_TN)
  have c: "c_str (strncpy2 (tokenize rec_WA1 ! 0) @ [CHR 0x00]) = ''WA''"
    "c_str (strncpy2 (tokenize rec_TN ! 0) @ [CHR 0x00]) = ''TN''"
    "c_str (strncpy2 (tokenize rec_WA2 ! 0) @ [CHR 0x14]) = ''WA'' @ [CHR 0x14]"
    by (simp_all add: tokenize_WA_TN created_code_samples)
  have s1: "analyze_line [CHR 0x00, CHR 0x00, CHR 0x14] (replicate 50 None) rec_WA1
      = Inr ([CHR 0x00, CHR 0x14], Some ?WA # replicate 49 None)"
    using analyze_line_install [of rec_WA1 "[]" "CHR 0x00" "[CHR 0x00, CHR 0x14]" "replicate 49 None"]
      r(1)
    unfolding c rep(1) by (simp add: blank_state_def)
  have s2: "analyze_line [CHR 0x00, CHR 0x14] (Some ?WA # replicate 49 None) rec_TN
      = Inr ([CHR 0x14], Some ?WA # Some ?TN # replicate 48 None)"
    using analyze_line_install [of rec_TN "[?WA]" "CHR 0x00" "[CHR 0x14]" "replicate 48 None"]
      r(2)
    unfolding c rep(2) by (simp add: blank_state_def)
  have s3: "analyze_line [CHR 0x14] (Some ?WA # Some ?TN # replicate 48 None) rec_WA2
      = Inr ([], Some ?WA # Some ?TN # Some ?WA' # replicate 47 None)"
    using analyze_line_install [of rec_WA2 "[?WA, ?TN]" "CHR 0x14" "[]" "replicate 47 None"]
      r(3)
    unfolding c rep(3) by (simp add: blank_state_def)
  have f1: "fgets (LINE_SIZE - 1) (rec_WA1 @ rec_TN) = (rec_WA1, rec_TN)"
    by (rule fgets_is_line) (rule is_line_WA_TN)
  have f2: "fgets (LINE_SIZE - 1) rec_TN = (rec_TN, [])"
    using fgets_is_line [OF is_line_WA_TN(2), of "[]"] by simp
  have f3: "fgets (LINE_SIZE - 1) rec_WA2 = (rec_WA2, [])"
    using fgets_is_line [OF is_line_WA_TN(3), of "[]"] by simp
  have n: "rec_WA1 @ rec_TN \<noteq> []" "rec_TN \<noteq> []" "rec_WA2 \<noteq> []"
    using is_line_WA_TN by (auto simp: is_line_def)
  have a2: "analyze_file [CHR 0x00, CHR 0x14] (Some ?WA # replicate 49 None) rec_TN
      = Inr ([CHR 0x14], Some ?WA # Some ?TN # replicate 48 None)"
    by (simp add: analyze_file_step [OF n(2) f2] s2 analyze_file_Nil)
  have a1: "analyze_file [CHR 0x00, CHR 0x00, CHR 0x14] (replicate 50 None) (rec_WA1 @ rec_TN)
      = Inr ([CHR 0x14], Some ?WA # Some ?TN # replicate 48 None)"
    by (simp add: analyze_file_step [OF n(1) f1] s1 a2)
  have a3: "analyze_file [CHR 0x14] (Some ?WA # Some ?TN # replicate 48 None) rec_WA2
      = Inr ([], Some ?WA # Some ?TN # Some ?WA' # replicate 47 None)"
    by (simp add: analyze_file_step [OF n(3) f3] s3 analyze_file_Nil)
  have 2: "main [CHR 0x00, CHR 0x00, CHR 0x14] ?files
      = Inr (Some ?WA # Some ?TN # Some ?WA' # replicate 47 None)"
    by (simp add: main_def NUM_STATES_def a1 a3)
  have "snapshot (replicate k None) = []" for k
    by (induction k) simp_all
  then have 3: "map code (snapshot (Some ?WA # Some ?TN # Some ?WA' # replicate 47 None))
      = [''WA'', ''TN'', ''WA'' @ [CHR 0x14]]"
    by (simp add: blank_state_def)
  show ?thesis by (rule conjI [OF 1 conjI [OF 2 3]])
qed

text \<open>
  C9. A line with fewer than nine tab-separated fields changes nothing: the array and the
  heap stay as they are, nothing fails, and \<open>analyze_file\<close> goes on with the rest of the file.
\<close>

theorem short_line_is_skipped:
  assumes "length (line_fields line) < 9"
  shows "analyze_line heap states line = Inr (heap, states) \<and>
     (\<forall>content rest. content \<noteq> [] \<and> fgets (LINE_SIZE - 1) content = (line, rest) \<longrightarrow>
        analyze_file heap states content = analyze_file heap states rest)"
proof -
  have "length (tokenize line) < 9"
    using assms length_tokenize_le [of line] by simp
  then have skip: "analyze_line heap states line = Inr (heap, states)"
    by (simp add: analyze_line_def)
  then show ?thesis by (auto simp: analyze_file_step)
qed

theorem short_line_is_skipped_witness:
  "length (line_fields short_line) < 9
   \<and> analyze_line (fresh 1) (Some (blank_state ''CA'') # replicate 49 None) short_line
       = Inr (fresh 1, Some (blank_state ''CA'') # replicate 49 None)
   \<and> analyze_file (fresh 1) (Some (blank_state ''CA'') # replicate 49 None) (short_line @ rec_CA2)
       = analyze_file (fresh 1) (Some (blank_state ''CA'') # replicate 49 None) rec_CA2"
proof -
  have h: "length (line_fields short_line) < 9" by code_simp
  have f: "fgets (LINE_SIZE - 1) (short_line @ rec_CA2) = (short_line, rec_CA2)"
    by (rule fgets_is_line) (rule is_line_more)
  have n: "short_line @ rec_CA2 \<noteq> []" using is_line_more(3) by (auto simp: is_line_def)
  from short_line_is_skipped [OF h, of "fresh 1" "Some (blank_state ''CA'') # replicate 49 None"] f n
  show ?thesis using h by simp
qed

text \<open>
  C10. The tokenizer takes a run of tabs for one separator: the tokens of a line buffer
  are its first nine non-empty fields, so an empty field makes the tokens fewer than the
  fields. A buffer of exactly nine fields is therefore skipped when one of its first eight
  fields is empty, or when its ninth field is empty and no newline follows. The buffer
  still holds the newline of the line, which belongs to the last token: a buffer of nine
  fields whose only empty field is the ninth, and which ends with the newline, is a record.
  Its ninth token is the newline alone, it receives a struct and is installed or folded
  like any record, and its temperature is read as 0 K, that is \<open>-459.67\<close> degrees Fahrenheit.
\<close>

theorem line_with_empty_field_is_skipped:
  "tokenize line = take 9 (filter (\<lambda>f. f \<noteq> []) (raw_fields line))
   \<and> ([] \<in> set (raw_fields line) \<longrightarrow> length (tokenize line) < length (line_fields line))
   \<and> (length (line_fields line) = 9
        \<and> ([] \<in> set (butlast (line_fields line))
            \<or> last (line_fields line) = [] \<and> chomp (c_str line) = c_str line) \<longrightarrow>
      analyze_line heap states line = Inr (heap, states))
   \<and> (length (raw_fields line) = 9 \<and> [] \<in> set (raw_fields line) \<longrightarrow>
      analyze_line heap states line = Inr (heap, states))
   \<and> (length (line_fields line) = 9 \<and> [] \<notin> set (butlast (line_fields line))
        \<and> last (line_fields line) = [] \<and> chomp (c_str line) \<noteq> c_str line \<longrightarrow>
      tokenize line = butlast (line_fields line) @ [[CHR 0x0A]]
      \<and> kelvin_to_fahrenheit (atof (tokenize line ! 8)) = - 459.67
      \<and> analyze_line [] states line = Inl Alloc_failed
      \<and> analyze_line (stale # heap) (None # rest) line =
          Inr (heap,
            Some \<lparr>code = c_str (strncpy2 (tokenize line ! 0) @ [stale]), num_records = 0,
                  humidity_sum = 0, temperature_sum = 0, max_temp = - DBL_MAX,
                  min_temp = DBL_MAX, max_temp_timestamp = 0, min_temp_timestamp = 0,
                  lightning_strikes = 0, snow_cover_records = 0, cloud_cover_sum = 0\<rparr> # rest)
      \<and> (length (code s) < 3 \<and> code s = c_str (strncpy2 (tokenize line ! 0) @ [stale]) \<longrightarrow>
           analyze_line (stale # heap) (Some s # rest) line =
             Inr (heap, Some (update_state_info s (tokenize line)) # rest)
           \<and> temperature_sum (update_state_info s (tokenize line))
               = temperature_sum s - 459.67))"
proof -
  have 1: "tokenize line = take 9 (filter (\<lambda>f. f \<noteq> []) (raw_fields line))"
    by (rule tokenize_fields)
  have 2: "[] \<in> set (raw_fields line) \<longrightarrow> length (tokenize line) < length (line_fields line)"
    using empty_field_fewer_tokens [of line] by (simp add: length_fields)
  have 3: "length (line_fields line) = 9
        \<and> ([] \<in> set (butlast (line_fields line))
            \<or> last (line_fields line) = [] \<and> chomp (c_str line) = c_str line) \<longrightarrow>
      analyze_line heap states line = Inr (heap, states)"
  proof (intro impI, elim conjE)
    assume len: "length (line_fields line) = 9"
      and e: "[] \<in> set (butlast (line_fields line))
            \<or> last (line_fields line) = [] \<and> chomp (c_str line) = c_str line"
    have rlen: "length (raw_fields line) = 9" using len by (simp add: length_fields)
    from e have "[] \<in> set (raw_fields line)"
    proof
      assume "[] \<in> set (butlast (line_fields line))"
      then have "[] \<in> set (butlast (raw_fields line))" by (simp add: butlast_fields)
      then show ?thesis by (rule in_set_butlastD)
    next
      assume a: "last (line_fields line) = [] \<and> chomp (c_str line) = c_str line"
      then have eq: "line_fields line = raw_fields line" by (simp add: line_fields_def raw_fields_def)
      have "raw_fields line \<noteq> []" using rlen by auto
      then have "last (raw_fields line) \<in> set (raw_fields line)" by (rule last_in_set)
      with a eq show ?thesis by simp
    qed
    with rlen show "analyze_line heap states line = Inr (heap, states)"
      by (rule nine_raw_fields_one_empty)
  qed
  have 4: "length (raw_fields line) = 9 \<and> [] \<in> set (raw_fields line) \<longrightarrow>
      analyze_line heap states line = Inr (heap, states)"
    using nine_raw_fields_one_empty [of line heap states] by blast
  let ?c = "c_str (strncpy2 (tokenize line ! 0) @ [stale])"
  have 5: "length (line_fields line) = 9 \<and> [] \<notin> set (butlast (line_fields line))
        \<and> last (line_fields line) = [] \<and> chomp (c_str line) \<noteq> c_str line \<longrightarrow>
      tokenize line = butlast (line_fields line) @ [[CHR 0x0A]]
      \<and> kelvin_to_fahrenheit (atof (tokenize line ! 8)) = - 459.67
      \<and> analyze_line [] states line = Inl Alloc_failed
      \<and> analyze_line (stale # heap) (None # rest) line =
          Inr (heap,
            Some \<lparr>code = ?c, num_records = 0,
                  humidity_sum = 0, temperature_sum = 0, max_temp = - DBL_MAX,
                  min_temp = DBL_MAX, max_temp_timestamp = 0, min_temp_timestamp = 0,
                  lightning_strikes = 0, snow_cover_records = 0, cloud_cover_sum = 0\<rparr> # rest)
      \<and> (length (code s) < 3 \<and> code s = ?c \<longrightarrow>
           analyze_line (stale # heap) (Some s # rest) line =
             Inr (heap, Some (update_state_info s (tokenize line)) # rest)
           \<and> temperature_sum (update_state_info s (tokenize line))
               = temperature_sum s - 459.67)"
  proof (intro impI, elim conjE)
    assume len: "length (line_fields line) = 9"
      and ne: "[] \<notin> set (butlast (line_fields line))"
      and la: "last (line_fields line) = []"
      and ch: "chomp (c_str line) \<noteq> c_str line"
    have tk: "tokenize line = butlast (line_fields line) @ [[CHR 0x0A]]"
      using len ne la ch by (rule empty_last_field_tokens)
    have l8: "length (butlast (line_fields line)) = 8" using len by simp
    have t8: "tokenize line ! 8 = [CHR 0x0A]" unfolding tk using l8 by (simp add: nth_append)
    have k: "kelvin_to_fahrenheit (atof (tokenize line ! 8)) = - 459.67"
      unfolding t8 using atof_newline by (simp add: kelvin_to_fahrenheit_def)
    have r: "9 \<le> length (tokenize line)" unfolding tk using l8 by simp
    then have rec: "is_record line" by (simp add: is_record_def)
    have nh: "analyze_line [] states line = Inl Alloc_failed"
      using rec by (rule analyze_line_no_heap)
    have i: "analyze_line (stale # heap) (None # rest) line =
          Inr (heap,
            Some \<lparr>code = ?c, num_records = 0,
                  humidity_sum = 0, temperature_sum = 0, max_temp = - DBL_MAX,
                  min_temp = DBL_MAX, max_temp_timestamp = 0, min_temp_timestamp = 0,
                  lightning_strikes = 0, snow_cover_records = 0, cloud_cover_sum = 0\<rparr> # rest)"
      using analyze_line_install [of line "[]" stale heap rest] r by simp
    have u: "length (code s) < 3 \<and> code s = ?c \<longrightarrow>
           analyze_line (stale # heap) (Some s # rest) line =
             Inr (heap, Some (update_state_info s (tokenize line)) # rest)
           \<and> temperature_sum (update_state_info s (tokenize line))
               = temperature_sum s - 459.67"
    proof (intro impI, elim conjE)
      assume a: "length (code s) < 3" and b: "code s = ?c"
      from analyze_line_update [of line "[]" stale s heap rest] r a b
      have x: "analyze_line (stale # heap) (Some s # rest) line =
          Inr (heap, Some (update_state_info s (tokenize line)) # rest)"
        by simp
      have y: "temperature_sum (update_state_info s (tokenize line)) = temperature_sum s - 459.67"
        using k by (simp add: temperature_sum_update)
      show "analyze_line (stale # heap) (Some s # rest) line =
             Inr (heap, Some (update_state_info s (tokenize line)) # rest)
           \<and> temperature_sum (update_state_info s (tokenize line))
               = temperature_sum s - 459.67"
        by (rule conjI [OF x y])
    qed
    show "tokenize line = butlast (line_fields line) @ [[CHR 0x0A]]
      \<and> kelvin_to_fahrenheit (atof (tokenize line ! 8)) = - 459.67
      \<and> analyze_line [] states line = Inl Alloc_failed
      \<and> analyze_line (stale # heap) (None # rest) line =
          Inr (heap,
            Some \<lparr>code = ?c, num_records = 0,
                  humidity_sum = 0, temperature_sum = 0, max_temp = - DBL_MAX,
                  min_temp = DBL_MAX, max_temp_timestamp = 0, min_temp_timestamp = 0,
                  lightning_strikes = 0, snow_cover_records = 0, cloud_cover_sum = 0\<rparr> # rest)
      \<and> (length (code s) < 3 \<and> code s = ?c \<longrightarrow>
           analyze_line (stale # heap) (Some s # rest) line =
             Inr (heap, Some (update_state_info s (tokenize line)) # rest)
           \<and> temperature_sum (update_state_info s (tokenize line))
               = temperature_sum s - 459.67)"
      by (rule conjI [OF tk conjI [OF k conjI [OF nh conjI [OF i u]]]])
  qed
  show ?thesis by (rule conjI [OF 1 conjI [OF 2 conjI [OF 3 conjI [OF 4 5]]]])
qed

theorem line_with_empty_field_is_skipped_witness:
  "length (line_fields rec_empty_geo) = 9
   \<and> [] \<in> set (butlast (line_fields rec_empty_geo))
   \<and> length (tokenize rec_empty_geo) < 9
   \<and> analyze_line (fresh 1) (replicate NUM_STATES None) rec_empty_geo
       = Inr (fresh 1, replicate NUM_STATES None)
   \<and> length (line_fields rec_unfinished) = 9
   \<and> last (line_fields rec_unfinished) = []
   \<and> chomp (c_str rec_unfinished) = c_str rec_unfinished
   \<and> length (raw_fields rec_unfinished) = 9
   \<and> analyze_line (fresh 1) (replicate NUM_STATES None) rec_unfinished
       = Inr (fresh 1, replicate NUM_STATES None)
   \<and> length (line_fields rec_empty_temp) = 9
   \<and> [] \<notin> set (butlast (line_fields rec_empty_temp))
   \<and> last (line_fields rec_empty_temp) = []
   \<and> chomp (c_str rec_empty_temp) \<noteq> c_str rec_empty_temp
   \<and> length (code (blank_state ''CA'')) < 3
   \<and> code (blank_state ''CA'') = c_str (strncpy2 (tokenize rec_empty_temp ! 0) @ [CHR 0x00])
   \<and> analyze_line [CHR 0x00] (Some (blank_state ''CA'') # replicate 49 None) rec_empty_temp
       = Inr ([], Some (update_state_info (blank_state ''CA'') (tokenize rec_empty_temp))
                # replicate 49 None)
   \<and> temperature_sum (update_state_info (blank_state ''CA'') (tokenize rec_empty_temp))
       = - 459.67"
proof -
  have l: "length (line_fields rec_empty_geo) = 9" by (simp add: fields_rec_empty_geo)
  have e: "[] \<in> set (butlast (line_fields rec_empty_geo))" by (simp add: fields_rec_empty_geo)
  note t = line_with_empty_field_is_skipped
    [where line = rec_empty_geo and heap = "fresh 1" and states = "replicate NUM_STATES None"]
  have "[] \<in> set (raw_fields rec_empty_geo)"
    using e by (simp add: butlast_fields in_set_butlastD)
  with t [THEN conjunct2, THEN conjunct1]
  have "length (tokenize rec_empty_geo) < length (line_fields rec_empty_geo)" by (rule mp)
  then have k: "length (tokenize rec_empty_geo) < 9" unfolding l .
  have a: "analyze_line (fresh 1) (replicate NUM_STATES None) rec_empty_geo
       = Inr (fresh 1, replicate NUM_STATES None)"
    by (rule t [THEN conjunct2, THEN conjunct2, THEN conjunct1, THEN mp,
          OF conjI [OF l disjI1 [OF e]]])
  have l': "length (line_fields rec_unfinished) = 9"
    and e': "last (line_fields rec_unfinished) = []"
    by (simp_all add: fields_rec_unfinished)
  have c': "chomp (c_str rec_unfinished) = c_str rec_unfinished" by code_simp
  have r': "length (raw_fields rec_unfinished) = 9"
    using l' by (simp add: length_fields)
  note u = line_with_empty_field_is_skipped
    [where line = rec_unfinished and heap = "fresh 1" and states = "replicate NUM_STATES None"]
  have a': "analyze_line (fresh 1) (replicate NUM_STATES None) rec_unfinished
       = Inr (fresh 1, replicate NUM_STATES None)"
    by (rule u [THEN conjunct2, THEN conjunct2, THEN conjunct1, THEN mp,
          OF conjI [OF l' disjI2 [OF conjI [OF e' c']]]])
  have l3: "length (line_fields rec_empty_temp) = 9"
    and n3: "[] \<notin> set (butlast (line_fields rec_empty_temp))"
    and e3: "last (line_fields rec_empty_temp) = []"
    by (simp_all add: fields_rec_empty_temp)
  have c3: "chomp (c_str rec_empty_temp) \<noteq> c_str rec_empty_temp" by code_simp
  have k3: "length (code (blank_state ''CA'')) < 3"
    and d3: "code (blank_state ''CA'') = c_str (strncpy2 (tokenize rec_empty_temp ! 0) @ [CHR 0x00])"
    by (simp_all add: blank_state_def tokenize_rec_empty_temp created_code_samples)
  note v = line_with_empty_field_is_skipped
    [where line = rec_empty_temp and stale = "CHR 0x00" and heap = "[]"
       and rest = "replicate 49 None" and s = "blank_state ''CA''",
     THEN conjunct2, THEN conjunct2, THEN conjunct2, THEN conjunct2, THEN mp,
     OF conjI [OF l3 conjI [OF n3 conjI [OF e3 c3]]],
     THEN conjunct2, THEN conjunct2, THEN conjunct2, THEN conjunct2, THEN mp,
     OF conjI [OF k3 d3]]
  have a3: "analyze_line [CHR 0x00] (Some (blank_state ''CA'') # replicate 49 None) rec_empty_temp
       = Inr ([], Some (update_state_info (blank_state ''CA'') (tokenize rec_empty_temp))
                # replicate 49 None)"
    using v by (rule conjunct1)
  have "temperature_sum (update_state_info (blank_state ''CA'') (tokenize rec_empty_temp))
       = temperature_sum (blank_state ''CA'') - 459.67"
    using v by (rule conjunct2)
  then have t3: "temperature_sum (update_state_info (blank_state ''CA'') (tokenize rec_empty_temp))
       = - 459.67"
    by (simp add: blank_state_def)
  show ?thesis
    by (rule conjI [OF l conjI [OF e conjI [OF k conjI [OF a
        conjI [OF l' conjI [OF e' conjI [OF c' conjI [OF r' conjI [OF a'
        conjI [OF l3 conjI [OF n3 conjI [OF e3 conjI [OF c3 conjI [OF k3
        conjI [OF d3 conjI [OF a3 t3]]]]]]]]]]]]]]]])
qed

text \<open>
  C10 as stated fails for a line whose ninth field is empty and which ends with its
  newline: the newline alone is the ninth token, the line is a record, and its temperature
  is read as 0 K, that is \<open>-459.67\<close> degrees Fahrenheit.
\<close>

theorem empty_last_field_is_parsed_as_zero:
  "length (line_fields rec_empty_temp) = 9
   \<and> [] \<in> set (line_fields rec_empty_temp)
   \<and> tokenize rec_empty_temp
       = [''CA'', ''3000000'', ''g'', ''70'', ''0'', ''30'', ''0'', ''9'', ''\<newline>'']
   \<and> main (fresh 2) [Some (rec_CA1 @ rec_empty_temp)]
       = Inr (Some \<lparr>code = ''CA'', num_records = 1, humidity_sum = 70,
                temperature_sum = - 459.67, max_temp = - 459.67, min_temp = - 459.67,
                max_temp_timestamp = 3000, min_temp_timestamp = 3000, lightning_strikes = 0,
                snow_cover_records = 0, cloud_cover_sum = 30\<rparr> # replicate 49 None)"
proof -
  have 1: "length (line_fields rec_empty_temp) = 9" by (simp add: fields_rec_empty_temp)
  have 2: "[] \<in> set (line_fields rec_empty_temp)" by (simp add: fields_rec_empty_temp)
  have rr: "is_record rec_empty_temp" "line_code rec_empty_temp = line_code rec_CA1"
    by (simp_all add: is_record_def line_code_def tokenize_rec_empty_temp tokenize_rec_CA1)
  have "input_lines [Some (rec_CA1 @ rec_empty_temp)] = [rec_CA1, rec_empty_temp]"
    using input_lines_one_file [of "[rec_CA1, rec_empty_temp]"]
    by (simp add: is_line_samples is_line_rec_empty_temp)
  then have "main (fresh 2) [Some (rec_CA1 @ rec_empty_temp)] =
      Inr (Some (update_state_info (blank_state (line_code rec_CA1)) (tokenize rec_empty_temp))
           # replicate (NUM_STATES - 1) None)"
    by (rule run_two_records [OF _ is_record_samples(1) rr]) simp
  then have "main (fresh 2) [Some (rec_CA1 @ rec_empty_temp)] =
      Inr (Some (update_state_info (blank_state ''CA'') (tokenize rec_empty_temp))
           # replicate 49 None)"
    unfolding line_code_samples NUM_STATES_def by simp
  then have 4: "main (fresh 2) [Some (rec_CA1 @ rec_empty_temp)]
       = Inr (Some \<lparr>code = ''CA'', num_records = 1, humidity_sum = 70,
                temperature_sum = - 459.67, max_temp = - 459.67, min_temp = - 459.67,
                max_temp_timestamp = 3000, min_temp_timestamp = 3000, lightning_strikes = 0,
                snow_cover_records = 0, cloud_cover_sum = 30\<rparr> # replicate 49 None)"
    unfolding update_blank_rec_empty_temp .
  show ?thesis by (rule conjI [OF 1 conjI [OF 2 conjI [OF tokenize_rec_empty_temp 4]]])
qed

end
